theory Spec2Isabelle
  imports Main
begin

section \<open>Strings as the Python code uses them\<close>

text \<open>
  A Python string is a sequence of Unicode code points. Here it is a \<^typ>\<open>string\<close> whose
  characters are the code points below 256 (the Latin-1 range), so that \<open>len\<close> is
  \<^const>\<open>length\<close>; strings with higher code points are outside the model. On this range
  \<open>str.lower()\<close> maps \<open>A\<close>..\<open>Z\<close> and the accented capitals \<open>0xC0\<close>..\<open>0xDE\<close> (without
  the multiplication sign \<open>0xD7\<close>) to the letter 32 places further on and leaves every
  other character alone.
\<close>

definition upper_latin1 :: "char list" where
  "upper_latin1 =
     [CHR 0xC0, CHR 0xC1, CHR 0xC2, CHR 0xC3, CHR 0xC4, CHR 0xC5, CHR 0xC6, CHR 0xC7,
      CHR 0xC8, CHR 0xC9, CHR 0xCA, CHR 0xCB, CHR 0xCC, CHR 0xCD, CHR 0xCE, CHR 0xCF,
      CHR 0xD0, CHR 0xD1, CHR 0xD2, CHR 0xD3, CHR 0xD4, CHR 0xD5, CHR 0xD6, CHR 0xD8,
      CHR 0xD9, CHR 0xDA, CHR 0xDB, CHR 0xDC, CHR 0xDD, CHR 0xDE]"

definition lower_latin1 :: "char list" where
  "lower_latin1 =
     [CHR 0xE0, CHR 0xE1, CHR 0xE2, CHR 0xE3, CHR 0xE4, CHR 0xE5, CHR 0xE6, CHR 0xE7,
      CHR 0xE8, CHR 0xE9, CHR 0xEA, CHR 0xEB, CHR 0xEC, CHR 0xED, CHR 0xEE, CHR 0xEF,
      CHR 0xF0, CHR 0xF1, CHR 0xF2, CHR 0xF3, CHR 0xF4, CHR 0xF5, CHR 0xF6, CHR 0xF8,
      CHR 0xF9, CHR 0xFA, CHR 0xFB, CHR 0xFC, CHR 0xFD, CHR 0xFE]"

definition lower_table :: "(char \<times> char) list" where
  "lower_table =
     zip (''ABCDEFGHIJKLMNOPQRSTUVWXYZ'' @ upper_latin1)
         (''abcdefghijklmnopqrstuvwxyz'' @ lower_latin1)"

definition lower_char :: "char \<Rightarrow> char" where
  "lower_char c = (case map_of lower_table c of Some d \<Rightarrow> d | None \<Rightarrow> c)"

definition lower :: "string \<Rightarrow> string" where
  "lower s = map lower_char s"

text \<open>\<open>s.startswith(p)\<close> and \<open>sub in s\<close>.\<close>

fun startswith :: "string \<Rightarrow> string \<Rightarrow> bool" where
  "startswith s [] = True"
| "startswith [] (p # ps) = False"
| "startswith (c # cs) (p # ps) = (c = p \<and> startswith cs ps)"

fun contains :: "string \<Rightarrow> string \<Rightarrow> bool" where
  "contains [] sub = (sub = [])"
| "contains (c # cs) sub = (startswith (c # cs) sub \<or> contains cs sub)"

text \<open>\<open>any(p in s for p in ps)\<close>; also \<open>any(re.search(p, s) for p in ps)\<close> when every
  pattern is a plain literal.\<close>

definition contains_any :: "string \<Rightarrow> string list \<Rightarrow> bool" where
  "contains_any s ps = list_ex (\<lambda>p. contains s p) ps"

text \<open>Character classes on this range: the white space of \<open>str.strip()\<close> and \<open>\s\<close>, the
  digits of \<open>\d\<close>, and the word characters of \<open>\w\<close> and \<open>\b\<close> (letters, digits and other
  numeric characters, and the underscore).\<close>

definition is_space :: "char \<Rightarrow> bool" where
  "is_space c = (c \<in> set [CHR '' '', CHR 0x09, CHR 0x0A, CHR 0x0B, CHR 0x0C, CHR 0x0D,
                           CHR 0x1C, CHR 0x1D, CHR 0x1E, CHR 0x1F, CHR 0x85, CHR 0xA0])"

definition is_digit :: "char \<Rightarrow> bool" where
  "is_digit c = (c \<in> set ''0123456789'')"

definition word_latin1 :: "char list" where
  "word_latin1 =
     [CHR 0xAA, CHR 0xB2, CHR 0xB3, CHR 0xB5, CHR 0xB9, CHR 0xBA, CHR 0xBC, CHR 0xBD,
      CHR 0xBE, CHR 0xC0, CHR 0xC1, CHR 0xC2, CHR 0xC3, CHR 0xC4, CHR 0xC5, CHR 0xC6,
      CHR 0xC7, CHR 0xC8, CHR 0xC9, CHR 0xCA, CHR 0xCB, CHR 0xCC, CHR 0xCD, CHR 0xCE,
      CHR 0xCF, CHR 0xD0, CHR 0xD1, CHR 0xD2, CHR 0xD3, CHR 0xD4, CHR 0xD5, CHR 0xD6,
      CHR 0xD8, CHR 0xD9, CHR 0xDA, CHR 0xDB, CHR 0xDC, CHR 0xDD, CHR 0xDE, CHR 0xDF,
      CHR 0xE0, CHR 0xE1, CHR 0xE2, CHR 0xE3, CHR 0xE4, CHR 0xE5, CHR 0xE6, CHR 0xE7,
      CHR 0xE8, CHR 0xE9, CHR 0xEA, CHR 0xEB, CHR 0xEC, CHR 0xED, CHR 0xEE, CHR 0xEF,
      CHR 0xF0, CHR 0xF1, CHR 0xF2, CHR 0xF3, CHR 0xF4, CHR 0xF5, CHR 0xF6, CHR 0xF8,
      CHR 0xF9, CHR 0xFA, CHR 0xFB, CHR 0xFC, CHR 0xFD, CHR 0xFE, CHR 0xFF]"

definition is_word_char :: "char \<Rightarrow> bool" where
  "is_word_char c =
     (c \<in> set (''abcdefghijklmnopqrstuvwxyzABCDEFGHIJKLMNOPQRSTUVWXYZ0123456789_'' @
               word_latin1))"

definition strip :: "string \<Rightarrow> string" where
  "strip s = rev (dropWhile is_space (rev (dropWhile is_space s)))"

text \<open>\<open>s.split(sep)\<close> for a one-character separator: always at least one part.\<close>

fun split_on :: "char \<Rightarrow> string \<Rightarrow> string list" where
  "split_on sep [] = [[]]"
| "split_on sep (c # cs) =
     (if c = sep then [] # split_on sep cs
      else (case split_on sep cs of
              [] \<Rightarrow> [[c]]
            | p # ps \<Rightarrow> (c # p) # ps))"

text \<open>\<open>re.sub(pat, "", s, flags=re.IGNORECASE)\<close> for a literal pattern: every
  non-overlapping occurrence, leftmost first, is removed.\<close>

function remove_ci :: "string \<Rightarrow> string \<Rightarrow> string" where
  "remove_ci pat [] = []"
| "remove_ci pat (c # cs) =
     (if pat \<noteq> [] \<and> startswith (lower (c # cs)) pat
      then remove_ci pat (drop (length pat) (c # cs))
      else c # remove_ci pat cs)"
  by pat_completeness auto
termination
  by (relation "measure (\<lambda>(pat, s). length s)") (auto simp: neq_Nil_conv)

text \<open>The regular expressions of the rule tables are alternatives of literals, some
  anchored at the start (\<open>^adapter\<close>), one between word boundaries (\<open>\btap\b\<close>).\<close>

datatype pattern = Sub string | AtStart string | Word string

fun word_at :: "string \<Rightarrow> string \<Rightarrow> bool" where
  "word_at p s =
     (startswith s p \<and>
      (case drop (length p) s of [] \<Rightarrow> True | c # _ \<Rightarrow> \<not> is_word_char c))"

fun search_word :: "string \<Rightarrow> bool \<Rightarrow> string \<Rightarrow> bool" where
  "search_word p boundary [] = False"
| "search_word p boundary (c # cs) =
     ((boundary \<and> word_at p (c # cs)) \<or> search_word p (\<not> is_word_char c) cs)"

fun re_match_alt :: "pattern \<Rightarrow> string \<Rightarrow> bool" where
  "re_match_alt (Sub p) s = contains s p"
| "re_match_alt (AtStart p) s = startswith s p"
| "re_match_alt (Word p) s = search_word p True s"

definition re_search :: "pattern list \<Rightarrow> string \<Rightarrow> bool" where
  "re_search alts s = list_ex (\<lambda>a. re_match_alt a s) alts"

text \<open>A dictionary with string keys, \<open>d.get(k)\<close>, and Python's truthiness of the result.\<close>

type_synonym dict = "(string \<times> string) list"

definition dict_get :: "dict \<Rightarrow> string \<Rightarrow> string option" where
  "dict_get d k = map_of d k"

fun truthy :: "string option \<Rightarrow> bool" where
  "truthy None = False"
| "truthy (Some v) = (v \<noteq> [])"

text \<open>\<open>a or b\<close> on optional strings, and \<open>d.get(k, "")\<close>.\<close>

definition py_or :: "string option \<Rightarrow> string option \<Rightarrow> string option" where
  "py_or a b = (if truthy a then a else b)"

definition get_or_empty :: "dict \<Rightarrow> string \<Rightarrow> string" where
  "get_or_empty d k = (case dict_get d k of Some v \<Rightarrow> v | None \<Rightarrow> [])"

section \<open>Resources\<close>

text \<open>\<open>AzureResource\<close> (azure\_service.py). Property values are strings.\<close>

record AzureResource =
  id' :: string
  name :: string
  type :: string
  location :: string
  resource_group :: string
  tags :: dict
  properties :: dict

section \<open>Relevance filter of the namespace listing (aks\_service.py, get\_pods\_from\_cluster)\<close>

definition system_namespaces :: "string list" where
  "system_namespaces = [''kube-system'', ''kube-public'', ''kube-node-lease'', ''default'']"

definition namespace_patterns :: "string list" where
  "namespace_patterns =
     [''transact'', ''eventstore'', ''adapter'', ''genericconfig'',
      ''holdings'', ''party'', ''modular'', ''temenos'', ''tap'',
      ''stmtgen'', ''notification'', ''audit'', ''file'', ''workflow'',
      ''deposits'', ''lending'', ''webingress'', ''ingress'', ''payment'',
      ''card'', ''account'', ''transaction'', ''core'', ''banking'',
      ''integration'', ''api'', ''gateway'', ''service'', ''microservice'']"

definition system_prefixes :: "string list" where
  "system_prefixes = [''kube-'', ''system-'', ''default'']"

text \<open>The body of the loop over the namespace items, as a predicate on one name.
  \<open>temenos_namespaces\<close> is the optional explicit filter; an empty list counts as none.\<close>

definition keep_namespace :: "string list option \<Rightarrow> string \<Rightarrow> bool" where
  "keep_namespace temenos_namespaces ns_name =
     (if ns_name \<in> set system_namespaces then False
      else (case temenos_namespaces of
              Some (t # ts) \<Rightarrow> list_ex (\<lambda>tns. contains (lower ns_name) (lower tns)) (t # ts)
            | _ \<Rightarrow>
               (if contains_any (lower ns_name) namespace_patterns then True
                else \<not> list_ex (\<lambda>p. startswith ns_name p) system_prefixes)))"

definition filter_namespaces :: "string list option \<Rightarrow> string list \<Rightarrow> string list" where
  "filter_namespaces temenos_namespaces names = filter (keep_namespace temenos_namespaces) names"

section \<open>Component classifier (temenos\_service.py)\<close>

definition infrastructure_types :: "string list" where
  "infrastructure_types =
     [''microsoft.network/networksecuritygroups'',
      ''microsoft.network/virtualnetworks'',
      ''microsoft.network/privatednszones'',
      ''microsoft.network/networkinterfaces'',
      ''microsoft.network/publicipaddresses'',
      ''microsoft.network/loadbalancers'',
      ''microsoft.network/applicationgateways'',
      ''microsoft.network/privatelinkservices'',
      ''microsoft.network/privatendpoints'',
      ''microsoft.storage/storageaccounts'',
      ''microsoft.keyvault/vaults'',
      ''microsoft.insights/components'',
      ''microsoft.operationalinsights/workspaces'']"

definition temenos_patterns :: "string list" where
  "temenos_patterns =
     [''transact'', ''payments'', ''wealth'', ''digital'', ''analytics'',
      ''datahub'', ''modular'', ''tap'', ''adapter'', ''genericconfig'',
      ''eventstore'', ''stmtgen'', ''notification'', ''audit'', ''file'',
      ''workflow'', ''integration'', ''temenos'']"

definition relevant_types :: "string list" where
  "relevant_types =
     [''microsoft.containerservice/managedclusters'',
      ''microsoft.containerservice/managedclusters/pods'',
      ''microsoft.app/containerapps'',
      ''microsoft.sql/servers'',
      ''microsoft.sql/databases'',
      ''microsoft.documentdb/databaseaccounts'',
      ''microsoft.compute/virtualmachines'',
      ''microsoft.compute/virtualmachinescalesets'']"

definition temenos_namespace_patterns :: "string list" where
  "temenos_namespace_patterns =
     [''eventstore'', ''adapter'', ''genericconfig'', ''holdings'', ''party'',
      ''transact'', ''modular'', ''temenos'', ''tap'', ''stmtgen'', ''notification'',
      ''audit'', ''file'', ''workflow'', ''deposits'', ''lending'', ''webingress'', ''ingress'']"

text \<open>The resource type matches the infrastructure deny-list of the classifier.\<close>

definition is_infrastructure :: "AzureResource \<Rightarrow> bool" where
  "is_infrastructure service = contains_any (lower (type service)) infrastructure_types"

definition is_pod :: "AzureResource \<Rightarrow> bool" where
  "is_pod service = contains (lower (type service)) ''managedclusters/pods''"

definition has_component_tag :: "AzureResource \<Rightarrow> bool" where
  "has_component_tag service =
     (truthy (dict_get (tags service) ''temenosComponent'') \<or>
      truthy (dict_get (tags service) ''component''))"

text \<open>\<open>_is_potential_temenos_component\<close>: tags are looked at first, then the deny-list,
  then pods, then the name.\<close>

definition is_potential_temenos_component :: "AzureResource \<Rightarrow> bool" where
  "is_potential_temenos_component service =
     (if has_component_tag service then True
      else
        let lname = lower (name service);
            resource_type = lower (type service)
        in if contains_any resource_type infrastructure_types then False
           else
             let has_temenos_name = contains_any lname temenos_patterns;
                 is_relevant_type = contains_any resource_type relevant_types
             in if contains (lower resource_type) ''managedclusters/pods''
                then (let namespace = get_or_empty (properties service) ''namespace''
                      in if namespace \<noteq> [] \<and>
                            contains_any (lower namespace) temenos_namespace_patterns
                         then True
                         else True)
                else has_temenos_name \<or> (is_relevant_type \<and> has_temenos_name))"

text \<open>\<open>_normalize_component_name\<close> and \<open>_categorize_component\<close>.\<close>

definition normalize_component_name :: "string \<Rightarrow> string" where
  "normalize_component_name nm =
     (let normalized = remove_ci ''microsoft.'' nm;
          normalized = remove_ci ''azure'' normalized;
          normalized = remove_ci ''service'' normalized;
          normalized = remove_ci ''appinitapp'' normalized;
          normalized = remove_ci ''appinit'' normalized;
          normalized = strip normalized
      in if normalized \<noteq> [] then normalized else ''Temenos Component'')"

definition categorize_component :: "string \<Rightarrow> string" where
  "categorize_component nm =
     (if contains_any (lower nm) [''microservice'', ''adapter'', ''config'', ''event'']
      then ''microservice'' else ''core'')"

record ExtractedInfo =
  componentName :: string
  normalizedName :: string
  componentCategory :: string

text \<open>The exact namespace table of \<open>_extract_component_name\<close>, in source order.\<close>

definition temenos_namespaces :: dict where
  "temenos_namespaces =
     [(''eventstore'', ''Event Store Microservice''),
      (''adapterservice'', ''Adapter Microservice''),
      (''adapter-service'', ''Adapter Microservice''),
      (''genericconfig'', ''Generic Config Microservice''),
      (''generic-config'', ''Generic Config Microservice''),
      (''holdings'', ''Holdings Microservice''),
      (''partyv2'', ''Party V2 Microservice''),
      (''party-v2'', ''Party V2 Microservice''),
      (''transact'', ''Temenos Transact''),
      (''modular-banking'', ''Modular Banking''),
      (''modularbanking'', ''Modular Banking''),
      (''webingress'', ''Web Ingress Microservice''),
      (''deposits202507'', ''Deposits Microservice''),
      (''ingress-nginx-deposits-202507'', ''Deposits Ingress Service''),
      (''ingress-nginx-lending'', ''Lending Ingress Service''),
      (''ingress-nginx-transact'', ''Transact Ingress Service''),
      (''stmtgen'', ''Statement Generation Microservice''),
      (''stmt-gen'', ''Statement Generation Microservice''),
      (''notification'', ''Notification Microservice''),
      (''audit'', ''Audit Microservice''),
      (''file'', ''File Management Microservice''),
      (''workflow'', ''Workflow Microservice''),
      (''integration'', ''Integration Microservice''),
      (''deposits'', ''Deposits Microservice''),
      (''lending'', ''Lending Microservice''),
      (''webingress'', ''Web Ingress Microservice''),
      (''web-ingress'', ''Web Ingress Microservice''),
      (''ingress'', ''Ingress Microservice''),
      (''tap'', ''Temenos TAP''),
      (''tap-service'', ''Temenos TAP Service''),
      (''temenos'', ''Temenos Component''),
      (''t24'', ''Temenos Transact''),
      (''temenos-transact'', ''Temenos Transact'')]"

text \<open>The \<open>if\<close>/\<open>elif\<close> chain tried when the exact lookup finds nothing.\<close>

definition namespace_pattern_name :: "string \<Rightarrow> string option" where
  "namespace_pattern_name namespace_lower =
     (if contains_any namespace_lower [''eventstore'', ''event-store'', ''event'']
        then Some ''Event Store Microservice''
      else if contains_any namespace_lower [''adapter'', ''adapt'']
        then Some ''Adapter Microservice''
      else if contains_any namespace_lower [''genericconfig'', ''generic-config'', ''config'']
        then Some ''Generic Config Microservice''
      else if contains_any namespace_lower [''holdings'', ''holding'']
        then Some ''Holdings Microservice''
      else if contains_any namespace_lower [''party'', ''partyv2'', ''party-v2'']
        then Some ''Party V2 Microservice''
      else if contains_any namespace_lower [''transact'', ''t24'', ''temenos-transact'']
        then Some ''Temenos Transact''
      else if contains_any namespace_lower [''modular'', ''modularbanking'', ''modular-banking'']
        then Some ''Modular Banking''
      else if contains_any namespace_lower [''stmtgen'', ''stmt-gen'', ''statement'']
        then Some ''Statement Generation Microservice''
      else if contains_any namespace_lower [''notification'', ''notify'']
        then Some ''Notification Microservice''
      else if contains_any namespace_lower [''audit'', ''auditing'']
        then Some ''Audit Microservice''
      else if contains_any namespace_lower [''file'', ''files'']
        then Some ''File Management Microservice''
      else if contains_any namespace_lower [''workflow'', ''workflows'']
        then Some ''Workflow Microservice''
      else if contains_any namespace_lower [''integration'', ''integrate'']
        then Some ''Integration Microservice''
      else if contains_any namespace_lower [''deposits'', ''deposit'']
        then Some ''Deposits Microservice''
      else if contains_any namespace_lower [''lending'', ''lend'']
        then Some ''Lending Microservice''
      else if contains_any namespace_lower [''webingress'', ''web-ingress'']
        then Some ''Web Ingress Microservice''
      else if contains namespace_lower ''ingress'' \<and> contains namespace_lower ''nginx''
        then (if contains namespace_lower ''transact'' then Some ''Transact Ingress Service''
              else if contains namespace_lower ''deposits'' then Some ''Deposits Ingress Service''
              else if contains namespace_lower ''lending'' then Some ''Lending Ingress Service''
              else Some ''Ingress Service'')
      else if contains namespace_lower ''ingress''
        then Some ''Ingress Microservice''
      else if contains_any namespace_lower [''tap'', ''tap-service'']
        then Some ''Temenos TAP''
      else if contains_any namespace_lower [''temenos'']
        then Some ''Temenos Component''
      else None)"

definition microservice_patterns :: "(pattern list \<times> string \<times> string) list" where
  "microservice_patterns =
     [([Sub ''holdings''], ''Holdings Microservice'', ''microservice''),
      ([AtStart ''adapter'', Sub ''adapter''], ''Adapter Microservice'', ''microservice''),
      ([AtStart ''genericconfig'', Sub ''genericconfig''], ''Generic Config Microservice'',
         ''microservice''),
      ([Sub ''eventstore'', Sub ''event-store'', Sub ''eventstore''], ''Event Store Microservice'',
         ''microservice''),
      ([AtStart ''stmtgen'', Sub ''stmtgen''], ''Statement Generation Microservice'',
         ''microservice''),
      ([AtStart ''notification'', Sub ''notification''], ''Notification Microservice'',
         ''microservice''),
      ([AtStart ''audit'', Sub ''audit''], ''Audit Microservice'', ''microservice''),
      ([AtStart ''file'', Sub ''file''], ''File Management Microservice'', ''microservice''),
      ([AtStart ''workflow'', Sub ''workflow''], ''Workflow Microservice'', ''microservice''),
      ([AtStart ''integration'', Sub ''integration''], ''Integration Microservice'',
         ''microservice'')]"

definition component_patterns :: "(pattern list \<times> string \<times> string) list" where
  "component_patterns =
     [([Sub ''transact''], ''Temenos Transact'', ''core''),
      ([Sub ''payments''], ''Temenos Payments'', ''core''),
      ([Sub ''wealth''], ''Temenos Wealth'', ''core''),
      ([Sub ''digital''], ''Temenos Digital'', ''core''),
      ([Sub ''analytics''], ''Temenos Analytics'', ''core''),
      ([Sub ''datahub''], ''Temenos Data Hub'', ''core''),
      ([Sub ''modular''], ''Temenos Modular Banking'', ''core''),
      ([Word ''tap''], ''Temenos TAP'', ''core'')]"

text \<open>The \<open>for pattern, name, category in table\<close> loops: the first rule that matches.\<close>

fun first_rule :: "(pattern list \<times> string \<times> string) list \<Rightarrow> string \<Rightarrow> (string \<times> string) option"
  where
  "first_rule [] s = None"
| "first_rule ((alts, nm, cat) # rules) s =
     (if re_search alts s then Some (nm, cat) else first_rule rules s)"

text \<open>For a pod: the namespace and the pod name that \<open>_extract_component_name\<close> works
  with. The namespace comes from the properties, then the tags, then the display name
  \<open>namespace/pod\<close>.\<close>

definition pod_namespace :: "AzureResource \<Rightarrow> string" where
  "pod_namespace service =
     (let namespace =
            (case py_or (py_or (dict_get (properties service) ''namespace'')
                               (dict_get (properties service) ''namespace_name''))
                        (dict_get (tags service) ''namespace'') of
               Some v \<Rightarrow> v | None \<Rightarrow> []);
          parts = split_on CHR ''/'' (name service)
      in if namespace = [] \<and> contains (name service) ''/'' \<and> length parts \<ge> 2
         then parts ! (length parts - 2)
         else namespace)"

definition pod_short_name :: "AzureResource \<Rightarrow> string" where
  "pod_short_name service =
     (if contains (name service) ''/'' then last (split_on CHR ''/'' (name service))
      else name service)"

definition extract_component_name :: "AzureResource \<Rightarrow> ExtractedInfo option" where
  "extract_component_name service =
     (if truthy (dict_get (tags service) ''temenosComponent'') then
        (let tag_name = get_or_empty (tags service) ''temenosComponent''
         in Some \<lparr>componentName = tag_name,
                  normalizedName = normalize_component_name tag_name,
                  componentCategory = categorize_component tag_name\<rparr>)
      else if truthy (dict_get (tags service) ''component'') then
        (let tag_name = get_or_empty (tags service) ''component''
         in Some \<lparr>componentName = tag_name,
                  normalizedName = normalize_component_name tag_name,
                  componentCategory = categorize_component tag_name\<rparr>)
      else
        let by_namespace =
              (if is_pod service \<and> pod_namespace service \<noteq> [] then
                 (case py_or (dict_get temenos_namespaces (lower (pod_namespace service)))
                             (namespace_pattern_name (lower (pod_namespace service))) of
                    Some normalized \<Rightarrow>
                      if normalized \<noteq> [] then
                        Some \<lparr>componentName = pod_short_name service,
                              normalizedName = normalized,
                              componentCategory =
                                (if contains normalized ''Microservice''
                                 then ''microservice'' else ''core'')\<rparr>
                      else None
                  | None \<Rightarrow> None)
               else None)
        in case by_namespace of
             Some info \<Rightarrow> Some info
           | None \<Rightarrow>
              let lname = (if is_pod service then lower (pod_short_name service)
                           else lower (name service))
              in case first_rule microservice_patterns lname of
                   Some (microservice_name, category) \<Rightarrow>
                     Some \<lparr>componentName = name service,
                           normalizedName = microservice_name,
                           componentCategory = category\<rparr>
                 | None \<Rightarrow>
                    (case first_rule component_patterns lname of
                       Some (component_name, category) \<Rightarrow>
                         Some \<lparr>componentName = name service,
                               normalizedName = component_name,
                               componentCategory = category\<rparr>
                     | None \<Rightarrow>
                        if contains (lower (type service)) ''temenos'' \<or>
                           contains (lower (type service)) ''transact''
                        then Some \<lparr>componentName = name service,
                                   normalizedName = normalize_component_name (type service),
                                   componentCategory = ''core''\<rparr>
                        else None))"

section \<open>Component knowledge and analysis results\<close>

record ComponentRelationship =
  target_component :: string
  relationship_type :: string
  description :: string

text \<open>\<open>TemenosComponentInfo\<close>. The \<open>related_services\<close> list is a mutable Python list
  that several objects may hold at once, so the field is the address of the list in a store
  and the store maps addresses to list contents. The other fields are never assigned after
  construction.\<close>

type_synonym store = "nat \<Rightarrow> string list"

record TemenosComponentInfo =
  component_name :: string
  component_type :: string
  architectural_overview :: string
  functional_overview :: string
  capabilities :: "string list"
  related_services :: nat
  relationships :: "ComponentRelationship list"

record TemenosAnalysisResult =
  service :: AzureResource
  component_info :: "TemenosComponentInfo option"
  error :: "string option"

section \<open>Knowledge enrichment (temenos\_service.py)\<close>

definition not_available :: string where
  "not_available = ''Information not available''"

definition not_available_timeout :: string where
  "not_available_timeout = ''Information not available - timeout''"

definition not_available_error :: string where
  "not_available_error = ''Information not available - error''"

text \<open>The texts built from the canonical name: the two sentences used when the
  knowledge service is not available, the prefix the staleness check looks for, and the two
  detailed fallback paragraphs.\<close>

definition minimal_architectural :: "string \<Rightarrow> string" where
  "minimal_architectural cname = cname @
     '' is a Temenos microservice component deployed in Azure Kubernetes Service.''"

definition minimal_functional :: "string \<Rightarrow> string" where
  "minimal_functional cname = cname @
     '' provides core banking functionality as part of the Temenos Transact platform.''"

definition minimal_prefix :: "string \<Rightarrow> string" where
  "minimal_prefix cname = cname @
     '' is a Temenos microservice component deployed''"

definition fallback_architectural :: "string \<Rightarrow> string" where
  "fallback_architectural cname = cname @
     '' is a Temenos microservice component deployed in Azure Kubernetes Service. \<newline>'' @
     ''\<newline>'' @
     ''Architecture:\<newline>'' @
     ''- Deployed as containerized microservices in Azure Kubernetes Service (AKS)\<newline>'' @
     ''- Follows microservices architecture patterns for scalability and resilience\<newline>'' @
     ''- Integrates with other Temenos components through well-defined APIs\<newline>'' @
     ''- Uses cloud-native technologies for deployment and orchestration\<newline>'' @
     ''\<newline>'' @
     ''Key Components:\<newline>'' @
     ''- Core service components handling business logic\<newline>'' @
     ''- API endpoints for external and internal communication\<newline>'' @
     ''- Data access layers for persistence\<newline>'' @
     ''- Integration layers for component communication\<newline>'' @
     ''\<newline>'' @
     ''Deployment:\<newline>'' @
     ''- Containerized using Docker\<newline>'' @
     ''- Orchestrated via Kubernetes\<newline>'' @
     ''- Scalable and resilient architecture\<newline>'' @
     ''- Cloud-native design patterns''"

definition fallback_functional :: "string \<Rightarrow> string" where
  "fallback_functional cname = cname @
     '' provides core banking functionality as part of the Temenos Transact platform.\<newline>'' @
     ''\<newline>'' @
     ''Functional Capabilities:\<newline>'' @
     ''- Core banking operations and business logic processing\<newline>'' @
     ''- Transaction processing and validation\<newline>'' @
     ''- Business rule enforcement\<newline>'' @
     ''- Data management and persistence\<newline>'' @
     ''\<newline>'' @
     ''Business Functions:\<newline>'' @
     ''- Handles critical banking operations\<newline>'' @
     ''- Supports core banking workflows\<newline>'' @
     ''- Manages business data and state\<newline>'' @
     ''- Provides APIs for integration with other components\<newline>'' @
     ''\<newline>'' @
     ''Integration:\<newline>'' @
     ''- Integrates with other Temenos microservices\<newline>'' @
     ''- Communicates via standard APIs and protocols\<newline>'' @
     ''- Supports event-driven architectures\<newline>'' @
     ''- Enables distributed system patterns''"

definition core_capability :: "string \<Rightarrow> string" where
  "core_capability cname = ''Core '' @ cname @ '' functionality''"

text \<open>\<open>_format_rag_response\<close>: runs of three or more newlines become two, runs of three
  or more blanks or tabs become one blank, then the text is stripped. Nothing is cut.\<close>

function squeeze :: "(char \<Rightarrow> bool) \<Rightarrow> string \<Rightarrow> string \<Rightarrow> string" where
  "squeeze P rep [] = []"
| "squeeze P rep (c # cs) =
     (if P c
      then (if length (takeWhile P (c # cs)) \<ge> 3 then rep else takeWhile P (c # cs)) @
           squeeze P rep (dropWhile P cs)
      else c # squeeze P rep cs)"
  by pat_completeness auto
termination
  by (relation "measure (\<lambda>(P, rep, s). length s)")
     (auto simp: length_dropWhile_le less_Suc_eq_le)

definition format_rag_response :: "string \<Rightarrow> string" where
  "format_rag_response text =
     (if text = [] \<or> text \<in> set [not_available_timeout, not_available] then text
      else
        let formatted = squeeze (\<lambda>c. c = CHR 0x0A) [CHR 0x0A, CHR 0x0A] text;
            formatted = squeeze (\<lambda>c. c = CHR '' '' \<or> c = CHR 0x09) '' '' formatted
        in strip formatted)"

text \<open>\<open>_extract_capabilities\<close>. \<open>re.split(r"[.!?]+", text)\<close> cuts at every run of
  sentence marks.\<close>

function re_split :: "(char \<Rightarrow> bool) \<Rightarrow> string \<Rightarrow> string list" where
  "re_split P [] = [[]]"
| "re_split P (c # cs) =
     (if P c then [] # re_split P (dropWhile P cs)
      else (case re_split P cs of
              [] \<Rightarrow> [[c]]
            | p # ps \<Rightarrow> (c # p) # ps))"
  by pat_completeness auto
termination
  by (relation "measure (\<lambda>(P, s). length s)")
     (auto simp: length_dropWhile_le less_Suc_eq_le)

definition capability_patterns :: "string list" where
  "capability_patterns =
     [''supports'', ''provides'', ''enables'', ''allows'', ''can'', ''handles'',
      ''manages'', ''processes'', ''facilitates'', ''delivers'', ''offers'',
      ''includes'', ''features'', ''capabilities'', ''functions'']"

definition reasonable_length :: "string \<Rightarrow> bool" where
  "reasonable_length clean = (length clean > 20 \<and> length clean < 200)"

text \<open>One sentence of the first scan: the capability it contributes, if any.\<close>

definition sentence_capability :: "string \<Rightarrow> string option" where
  "sentence_capability sentence0 =
     (let sentence = strip sentence0
      in if length sentence < 20 then None
         else if contains_any (lower sentence) capability_patterns
         then (let clean = strip (dropWhile (\<lambda>c. \<not> is_word_char c) sentence)
               in if reasonable_length clean then Some clean else None)
         else None)"

text \<open>One line of the second scan. A bullet is \<open>-\<close> or \<open>*\<close> followed by white space, a
  number is digits, then \<open>.\<close> or \<open>)\<close>, then white space; the marker removed afterwards is
  one character of \<open>-*0123456789.)\<close> and the white space after it. The third bullet of
  the source, the round one, has a code point above 255 and does not occur in the strings
  of this model.\<close>

definition is_bullet_line :: "string \<Rightarrow> bool" where
  "is_bullet_line line =
     (case line of
        c # d # _ \<Rightarrow> c \<in> set ''-*'' \<and> is_space d
      | _ \<Rightarrow> False)"

definition is_numbered_line :: "string \<Rightarrow> bool" where
  "is_numbered_line line =
     (takeWhile is_digit line \<noteq> [] \<and>
      (case dropWhile is_digit line of
         c # d # _ \<Rightarrow> c \<in> set ''.)'' \<and> is_space d
       | _ \<Rightarrow> False))"

definition remove_marker :: "string \<Rightarrow> string" where
  "remove_marker line =
     (case line of
        c # d # rest \<Rightarrow>
          if (c \<in> set ''-*.)'' \<or> is_digit c) \<and> is_space d
          then dropWhile is_space (d # rest) else line
      | _ \<Rightarrow> line)"

definition line_capability :: "string \<Rightarrow> string option" where
  "line_capability line0 =
     (let line = strip line0
      in if is_bullet_line line \<or> is_numbered_line line
         then (let clean = strip (remove_marker line)
               in if reasonable_length clean then Some clean else None)
         else None)"

definition extract_capabilities :: "string \<Rightarrow> string list" where
  "extract_capabilities text =
     (if text = [] \<or> text \<in> set [not_available, not_available_timeout] then []
      else
        let sentences = re_split (\<lambda>c. c \<in> set ''.!?'') text;
            capabilities = List.map_filter sentence_capability sentences
        in if length capabilities < 3
           then capabilities @ List.map_filter line_capability (split_on (CHR 0x0A) text)
           else capabilities)"

text \<open>\<open>_determine_component_type\<close>: the type label, from the shape of the resource.\<close>

definition determine_component_type :: "AzureResource \<Rightarrow> string" where
  "determine_component_type svc =
     (let resource_type = lower (type svc);
          lname = lower (name svc)
      in if contains resource_type ''microsoft.app/containerapps'' \<or>
            contains resource_type ''containerapp''
         then (if contains lname ''api'' \<or> contains lname ''apiapp''
                 then ''Azure Container App (API Service)''
               else if contains lname ''ingester'' \<or> contains lname ''ingest''
                 then ''Azure Container App (Ingester)''
               else if contains lname ''initapp'' \<or>
                       (contains lname ''init'' \<and> contains lname ''app'')
                 then ''Azure Container App (Initializer)''
               else ''Azure Container App'')
         else if contains resource_type ''managedclusters/pods''
         then (let namespace = get_or_empty (properties svc) ''namespace''
               in if namespace \<noteq> [] then ''AKS Pod ('' @ namespace @ '' namespace)''
                  else ''AKS Pod'')
         else if contains resource_type ''microsoft.containerservice'' \<or>
                 contains resource_type ''kubernetes''
         then ''Azure Kubernetes Service (AKS)''
         else if contains resource_type ''database'' \<or> contains resource_type ''sql''
         then (if contains resource_type ''cosmos'' then ''Azure Cosmos DB''
               else if contains resource_type ''postgresql'' then ''Azure Database for PostgreSQL''
               else if contains resource_type ''mysql'' then ''Azure Database for MySQL''
               else ''Azure Database Service'')
         else if contains resource_type ''storage'' then ''Azure Storage (Infrastructure)''
         else if contains resource_type ''eventhub'' then ''Azure Event Hub''
         else (let parts = split_on CHR ''/'' (type svc)
               in if length parts > 1 then ''Azure '' @ last parts
                  else ''Azure Resource''))"

text \<open>
  The knowledge service. A query either times out (\<open>asyncio.TimeoutError\<close> after 60
  seconds), fails (any other exception raised inside the \<open>try\<close> around the query: an
  error of the adapter, or a \<open>data\<close> field that is not a dictionary, on which the logging
  of the answer preview raises), or returns a response: one whose \<open>data.answer\<close> is a
  text, one without an answer (the default text is used), or one whose answer is not a
  text, on which the code after the two queries raises. The service need not be
  deterministic: the answer may depend on how many queries came before. Its question is
  built from the canonical name and the category, which stand for it here.
\<close>

datatype rag_kind = Architectural | Functional

datatype rag_response = Answer string | NoAnswer | Malformed | Timeout | Failure

record rag_env =
  has_rag :: bool
  query_rag :: "nat \<Rightarrow> rag_kind \<Rightarrow> string \<Rightarrow> string \<Rightarrow> rag_response"

text \<open>A \<open>TemenosService\<close> instance: its cache, keyed by the lower-cased canonical name; the
  number of queries sent so far; the store of related-service lists and the next free
  address in it.\<close>

record service_state =
  component_cache :: "string \<rightharpoonup> TemenosComponentInfo"
  rag_calls :: nat
  heap :: store
  next_ref :: nat

definition new_service :: "store \<Rightarrow> nat \<Rightarrow> service_state" where
  "new_service h n = \<lparr>component_cache = Map.empty, rag_calls = 0, heap = h, next_ref = n\<rparr>"

text \<open>\<open>related_services=[]\<close>: a new, empty list object.\<close>

definition new_list :: "service_state \<Rightarrow> nat \<times> service_state" where
  "new_list st =
     (next_ref st, st\<lparr>heap := (heap st)(next_ref st := []), next_ref := Suc (next_ref st)\<rparr>)"

definition cache_put :: "bool \<Rightarrow> string \<Rightarrow> TemenosComponentInfo \<Rightarrow> service_state \<Rightarrow> service_state"
  where
  "cache_put use_cache cache_key info st =
     (if use_cache then st\<lparr>component_cache := (component_cache st)(cache_key \<mapsto> info)\<rparr>
      else st)"

text \<open>The text of a response, as the \<open>try\<close>/\<open>except\<close> around each query and the
  \<open>.get("data", {}).get("answer", ...)\<close> after both leave it; \<open>None\<close> when the answer is
  not a text and its use raises.\<close>

fun response_text :: "rag_response \<Rightarrow> string option" where
  "response_text (Answer t) = Some t"
| "response_text NoAnswer = Some not_available"
| "response_text Malformed = None"
| "response_text Timeout = Some not_available_timeout"
| "response_text Failure = Some not_available_error"

definition is_minimal :: "string \<Rightarrow> TemenosComponentInfo \<Rightarrow> bool" where
  "is_minimal cname cached_info =
     (startswith (architectural_overview cached_info) (minimal_prefix cname) \<and>
      length (architectural_overview cached_info) < 500)"

text \<open>A text that the staleness check would take for a minimal description, whatever
  the canonical name: shorter than 500 characters and containing the fixed part of the
  prefix.\<close>

definition looks_minimal :: "string \<Rightarrow> bool" where
  "looks_minimal text =
     (length text < 500 \<and> contains text '' is a Temenos microservice component deployed'')"

text \<open>The part of \<open>identify_component\<close> after the cache check: the description without
  the knowledge service, or the two queries and what is made of their answers.\<close>

definition fetch_component ::
  "rag_env \<Rightarrow> AzureResource \<Rightarrow> bool \<Rightarrow> string \<Rightarrow> string \<Rightarrow> service_state
     \<Rightarrow> TemenosComponentInfo option \<times> service_state" where
  "fetch_component env svc use_cache cname category st =
     (let cache_key = lower cname
      in if \<not> has_rag env then
           (let (r, st1) = new_list st;
                info =
                  \<lparr>component_name = cname,
                   component_type = determine_component_type svc,
                   architectural_overview = minimal_architectural cname,
                   functional_overview = minimal_functional cname,
                   capabilities = [core_capability cname],
                   related_services = r,
                   relationships = []\<rparr>
            in (Some info, cache_put use_cache cache_key info st1))
         else
           let architectural_response =
                 query_rag env (rag_calls st) Architectural cname category;
               functional_response =
                 query_rag env (Suc (rag_calls st)) Functional cname category;
               st1 = st\<lparr>rag_calls := rag_calls st + 2\<rparr>
           in case (response_text architectural_response, response_text functional_response) of
                (Some architectural_text, Some functional_text) \<Rightarrow>
                  let arch_formatted = format_rag_response architectural_text;
                      func_formatted = format_rag_response functional_text;
                      arch_formatted =
                        (if arch_formatted \<in> set [not_available, not_available_timeout]
                         then fallback_architectural cname else arch_formatted);
                      func_formatted =
                        (if func_formatted \<in> set [not_available, not_available_timeout]
                         then fallback_functional cname else func_formatted);
                      (r, st2) = new_list st1;
                      info =
                        \<lparr>component_name = cname,
                         component_type = determine_component_type svc,
                         architectural_overview = arch_formatted,
                         functional_overview = func_formatted,
                         capabilities =
                           (if functional_text \<noteq> not_available
                            then extract_capabilities functional_text
                            else [core_capability cname]),
                         related_services = r,
                         relationships = []\<rparr>
                  in (Some info, cache_put use_cache cache_key info st2)
              | _ \<Rightarrow> (None, st1))"

text \<open>\<open>identify_component\<close>. Every exception is caught inside and turned into \<open>None\<close>. A
  cache hit returns a new object whose list fields are the cached object's own lists.\<close>

definition identify_component ::
  "rag_env \<Rightarrow> AzureResource \<Rightarrow> bool \<Rightarrow> bool \<Rightarrow> service_state
     \<Rightarrow> TemenosComponentInfo option \<times> service_state" where
  "identify_component env svc use_cache force_refresh st =
     (if \<not> is_potential_temenos_component svc then (None, st)
      else case extract_component_name svc of
        None \<Rightarrow> (None, st)
      | Some extracted_info \<Rightarrow>
          let cname = normalizedName extracted_info;
              category = componentCategory extracted_info;
              cache_key = lower cname
          in case (if use_cache \<and> \<not> force_refresh then component_cache st cache_key else None) of
               Some cached_info \<Rightarrow>
                 if is_minimal cname cached_info \<and> has_rag env
                 then fetch_component env svc use_cache cname category
                        (st\<lparr>component_cache := (component_cache st)(cache_key := None)\<rparr>)
                 else (Some \<lparr>component_name = component_name cached_info,
                             component_type = determine_component_type svc,
                             architectural_overview = architectural_overview cached_info,
                             functional_overview = functional_overview cached_info,
                             capabilities = capabilities cached_info,
                             related_services = related_services cached_info,
                             relationships = relationships cached_info\<rparr>, st)
             | None \<Rightarrow>
                 fetch_component env svc use_cache cname category st)"

text \<open>Two properties of a cache that a run keeps: every entry sits under the lower-cased
  name it carries, and, while the knowledge service is available, no entry looks like a
  minimal description.\<close>

definition cache_sound :: "rag_env \<Rightarrow> service_state \<Rightarrow> bool" where
  "cache_sound env st =
     (\<forall>k c. component_cache st k = Some c \<longrightarrow>
        lower (component_name c) = k \<and>
        (has_rag env \<longrightarrow> \<not> looks_minimal (architectural_overview c)))"

text \<open>\<open>analyze_services\<close>. The candidates are cut into batches of three
  (\<open>potential_services[i:i + batch_size]\<close> for \<open>i\<close> in steps of three), and each batch is
  processed one resource after the other; the pause between batches changes nothing.
  \<open>identify_component\<close> never raises, so each candidate yields a result with knowledge or
  with the error text. The resources that were skipped are appended without knowledge.\<close>

function batches :: "nat \<Rightarrow> 'a list \<Rightarrow> 'a list list" where
  "batches n xs = (if n = 0 \<or> xs = [] then [] else take n xs # batches n (drop n xs))"
  by pat_completeness auto
termination
  by (relation "measure (\<lambda>(n, xs). length xs)") auto

declare batches.simps [simp del]

definition could_not_identify :: string where
  "could_not_identify = ''Could not identify Temenos component''"

fun analyze_each ::
  "rag_env \<Rightarrow> bool \<Rightarrow> bool \<Rightarrow> AzureResource list \<Rightarrow> service_state
     \<Rightarrow> TemenosAnalysisResult list \<times> service_state" where
  "analyze_each env use_cache force_refresh [] st = ([], st)"
| "analyze_each env use_cache force_refresh (s # ss) st =
     (let (info, st1) = identify_component env s use_cache force_refresh st;
          result = \<lparr>service = s, component_info = info,
                    error = (if info = None then Some could_not_identify else None)\<rparr>;
          (results, st2) = analyze_each env use_cache force_refresh ss st1
      in (result # results, st2))"

fun analyze_batches ::
  "rag_env \<Rightarrow> bool \<Rightarrow> bool \<Rightarrow> AzureResource list list \<Rightarrow> service_state
     \<Rightarrow> TemenosAnalysisResult list \<times> service_state" where
  "analyze_batches env use_cache force_refresh [] st = ([], st)"
| "analyze_batches env use_cache force_refresh (batch # rest) st =
     (let (results1, st1) = analyze_each env use_cache force_refresh batch st;
          (results2, st2) = analyze_batches env use_cache force_refresh rest st1
      in (results1 @ results2, st2))"

definition analyze_services ::
  "rag_env \<Rightarrow> AzureResource list \<Rightarrow> bool \<Rightarrow> bool \<Rightarrow> service_state
     \<Rightarrow> TemenosAnalysisResult list \<times> service_state" where
  "analyze_services env services use_cache force_refresh st =
     (let potential_services = filter is_potential_temenos_component services
      in if potential_services = [] then ([], st)
         else
           let (results, st1) =
                 analyze_batches env use_cache force_refresh (batches 3 potential_services) st;
               skipped_services = filter (\<lambda>s. s \<notin> set potential_services) services
           in (results @
               map (\<lambda>skipped. \<lparr>service = skipped, component_info = None, error = None\<rparr>)
                   skipped_services, st1))"

section \<open>Aggregator (deployment.py, \_deduplicate\_components)\<close>

text \<open>The two deny-lists of the aggregator: the one that keeps a classified resource out
  of the grouping, and the longer one applied to everything left unidentified.\<close>

definition grouping_infra_types :: "string list" where
  "grouping_infra_types =
     [''microsoft.storage'', ''microsoft.keyvault'', ''microsoft.network'',
      ''microsoft.insights'', ''microsoft.operationalinsights'']"

definition unidentified_infra_types :: "string list" where
  "unidentified_infra_types =
     [''microsoft.storage'', ''microsoft.keyvault'', ''microsoft.network'',
      ''microsoft.insights'', ''microsoft.operationalinsights'',
      ''microsoft.compute/virtualmachines'',
      ''microsoft.compute/virtualmachinescalesets'']"

text \<open>The grouping key of a classified result: the lower-cased namespace for a pod (the
  canonical name when the namespace is missing), the canonical name for any other resource,
  and none for a resource of an infrastructure type, which goes to the unidentified list.\<close>

definition grouping_key :: "AzureResource \<Rightarrow> TemenosComponentInfo \<Rightarrow> string option" where
  "grouping_key svc info =
     (let normalized_name = component_name info
      in if contains (lower (type svc)) ''managedclusters/pods''
         then (let namespace = get_or_empty (properties svc) ''namespace''
               in if namespace \<noteq> [] then Some (lower namespace) else Some normalized_name)
         else if contains_any (lower (type svc)) grouping_infra_types then None
         else Some normalized_name)"

text \<open>The loop state: \<open>component_map\<close> in insertion order (a Python dictionary keeps
  it), the unidentified results, and the store of lists.\<close>

record dedup_state =
  component_map :: "(string \<times> TemenosAnalysisResult) list"
  unidentified :: "TemenosAnalysisResult list"
  list_contents :: store

definition dedup_step :: "TemenosAnalysisResult \<Rightarrow> dedup_state \<Rightarrow> dedup_state" where
  "dedup_step result st =
     (case component_info result of
        None \<Rightarrow> st\<lparr>unidentified := unidentified st @ [result]\<rparr>
      | Some info \<Rightarrow>
         (case grouping_key (service result) info of
            None \<Rightarrow> st\<lparr>unidentified := unidentified st @ [result]\<rparr>
          | Some key \<Rightarrow>
             (case map_of (component_map st) key of
                None \<Rightarrow> st\<lparr>component_map := component_map st @ [(key, result)]\<rparr>
              | Some existing \<Rightarrow>
                 (case component_info existing of
                    None \<Rightarrow> st
                  | Some existing_info \<Rightarrow>
                     if name (service result) \<notin> set (list_contents st (related_services existing_info))
                     then st\<lparr>list_contents := (list_contents st)
                            (related_services existing_info :=
                               list_contents st (related_services existing_info) @
                               [name (service result)])\<rparr>
                     else st))))"

fun dedup_loop :: "TemenosAnalysisResult list \<Rightarrow> dedup_state \<Rightarrow> dedup_state" where
  "dedup_loop [] st = st"
| "dedup_loop (result # results) st = dedup_loop results (dedup_step result st)"

definition is_noise :: "TemenosAnalysisResult \<Rightarrow> bool" where
  "is_noise result = contains_any (lower (type (service result))) unidentified_infra_types"

definition deduplicate_components ::
  "TemenosAnalysisResult list \<Rightarrow> store \<Rightarrow> TemenosAnalysisResult list \<times> store" where
  "deduplicate_components results h =
     (let st = dedup_loop results \<lparr>component_map = [], unidentified = [], list_contents = h\<rparr>;
          filtered_unidentified = filter (\<lambda>result. \<not> is_noise result) (unidentified st);
          identified = map snd (component_map st)
      in (identified @ filtered_unidentified, list_contents st))"

text \<open>
  What the aggregator is meant to compute, said without the loop. The key of a result is
  its grouping key, none for a result without knowledge or of an infrastructure type. The
  keys are taken in order of first appearance; the representative of a key is the first
  result that has it; a later duplicate is a result whose key an earlier result had; the
  names merged into the list at an address are those of the later duplicates whose
  representative holds that list; and a list grows by the names it does not have yet, each
  once, in order of appearance.
\<close>

definition key_of :: "TemenosAnalysisResult \<Rightarrow> string option" where
  "key_of result =
     (case component_info result of
        None \<Rightarrow> None
      | Some info \<Rightarrow> grouping_key (service result) info)"

definition first_seen :: "'a list \<Rightarrow> 'a list" where
  "first_seen xs = rev (remdups (rev xs))"

definition group_keys :: "TemenosAnalysisResult list \<Rightarrow> string list" where
  "group_keys results = first_seen (List.map_filter key_of results)"

definition representative :: "TemenosAnalysisResult list \<Rightarrow> string \<Rightarrow> TemenosAnalysisResult option"
  where
  "representative results k = find (\<lambda>r. key_of r = Some k) results"

fun later_duplicates :: "string list \<Rightarrow> TemenosAnalysisResult list \<Rightarrow> TemenosAnalysisResult list"
  where
  "later_duplicates seen [] = []"
| "later_duplicates seen (r # rs) =
     (case key_of r of
        None \<Rightarrow> later_duplicates seen rs
      | Some k \<Rightarrow> if k \<in> set seen then r # later_duplicates seen rs
                  else later_duplicates (k # seen) rs)"

definition list_of_representative :: "TemenosAnalysisResult list \<Rightarrow> TemenosAnalysisResult \<Rightarrow> nat option"
  where
  "list_of_representative results r =
     (case key_of r of
        None \<Rightarrow> None
      | Some k \<Rightarrow>
         (case representative results k of
            None \<Rightarrow> None
          | Some e \<Rightarrow> map_option related_services (component_info e)))"

definition merged_names :: "TemenosAnalysisResult list \<Rightarrow> nat \<Rightarrow> string list" where
  "merged_names results a =
     map (\<lambda>r. name (service r))
         (filter (\<lambda>r. list_of_representative results r = Some a) (later_duplicates [] results))"

definition add_new :: "'a list \<Rightarrow> 'a list \<Rightarrow> 'a list" where
  "add_new xs ys = xs @ first_seen (filter (\<lambda>y. y \<notin> set xs) ys)"

text \<open>\<open>to_dict\<close> of a component and of a result, as the response carries them: the
  related services are read from the store when the response is built.\<close>

record ComponentInfoDict =
  componentName_d :: string
  componentType_d :: string
  architecturalOverview_d :: string
  functionalOverview_d :: string
  capabilities_d :: "string list"
  relatedServices_d :: "string list"
  relationships_d :: "ComponentRelationship list"

record AnalysisResultDict =
  service_d :: AzureResource
  componentInfo_d :: "ComponentInfoDict option"
  error_d :: "string option"

definition info_to_dict :: "store \<Rightarrow> TemenosComponentInfo \<Rightarrow> ComponentInfoDict" where
  "info_to_dict h info =
     \<lparr>componentName_d = component_name info,
      componentType_d = component_type info,
      architecturalOverview_d = architectural_overview info,
      functionalOverview_d = functional_overview info,
      capabilities_d = capabilities info,
      relatedServices_d = h (related_services info),
      relationships_d = relationships info\<rparr>"

definition result_to_dict :: "store \<Rightarrow> TemenosAnalysisResult \<Rightarrow> AnalysisResultDict" where
  "result_to_dict h result =
     \<lparr>service_d = service result,
      componentInfo_d = map_option (info_to_dict h) (component_info result),
      error_d = (case error result of Some e \<Rightarrow> if e \<noteq> [] then Some e else None
                 | None \<Rightarrow> None)\<rparr>"

section \<open>Pods and their discovery (aks\_service.py)\<close>

record AKSPod =
  pod_name :: string
  namespace :: string
  cluster_name :: string
  cluster_resource_group :: string
  status :: string
  labels :: dict
  containers :: "string list"

text \<open>\<open>AKSPod.to_azure_resource\<close>. The display name is \<open>namespace/pod\<close>. The fixed tags
  override labels of the same key, so they come first in the association list. The
  list-valued property \<open>containers\<close> has no place among string-valued properties and is
  left out; nothing downstream reads it.\<close>

definition to_azure_resource :: "AKSPod \<Rightarrow> AzureResource" where
  "to_azure_resource pod =
     \<lparr>id' = ''/subscriptions/'' @ cluster_resource_group pod @
             ''/resourceGroups/'' @ cluster_resource_group pod @
             ''/providers/Microsoft.ContainerService/managedClusters/'' @ cluster_name pod @
             ''/namespaces/'' @ namespace pod @ ''/pods/'' @ pod_name pod,
      name = namespace pod @ ''/'' @ pod_name pod,
      type = ''Microsoft.ContainerService/managedClusters/pods'',
      location = [],
      resource_group = cluster_resource_group pod,
      tags = [(''namespace'', namespace pod), (''pod_name'', pod_name pod),
              (''cluster'', cluster_name pod)] @ labels pod,
      properties = [(''namespace'', namespace pod), (''cluster'', cluster_name pod),
                    (''status'', status pod), (''pod_name'', pod_name pod),
                    (''namespace_name'', namespace pod)]\<rparr>"

text \<open>A pod none of whose labels is a component label with a value: the classifier
  reads \<open>temenosComponent\<close> and \<open>component\<close> from the tags, where the labels end up. And
  the resource of a pod with the bare pod name as its display name.\<close>

definition no_component_label :: "AKSPod \<Rightarrow> bool" where
  "no_component_label pod =
     (\<not> truthy (dict_get (labels pod) ''temenosComponent'') \<and>
      \<not> truthy (dict_get (labels pod) ''component''))"

definition bare_named :: "AKSPod \<Rightarrow> AzureResource" where
  "bare_named pod = (to_azure_resource pod)\<lparr>name := pod_name pod\<rparr>"

definition is_aks_cluster :: "AzureResource \<Rightarrow> bool" where
  "is_aks_cluster resource = (lower (type resource) = ''microsoft.containerservice/managedclusters'')"

text \<open>\<open>xs.index(x)\<close> for an element that occurs, and the element after the first
  occurrence of a marker, which is an \<open>IndexError\<close> when the marker comes last.\<close>

definition index_of :: "'a list \<Rightarrow> 'a \<Rightarrow> nat" where
  "index_of xs x = length (takeWhile (\<lambda>y. y \<noteq> x) xs)"

definition part_after :: "string list \<Rightarrow> string \<Rightarrow> string option" where
  "part_after parts marker =
     (if Suc (index_of parts marker) < length parts
      then Some (parts ! Suc (index_of parts marker)) else None)"

text \<open>What the cluster answers, as far as the pipeline is concerned: whether the
  management client can be built; per cluster, the namespace names that
  \<open>kubectl get namespaces\<close> returns (\<open>None\<close> when no credentials are found or the call or
  its parsing fails); per cluster and namespace, the pods listed (name, phase, labels,
  containers), empty when the listing fails.\<close>

record aks_world =
  aks_client_ok :: bool
  cluster_namespaces :: "AzureResource \<Rightarrow> string list option"
  namespace_pods :: "AzureResource \<Rightarrow> string \<Rightarrow> (string \<times> string \<times> dict \<times> string list) list"

definition get_pods_from_cluster ::
  "aks_world \<Rightarrow> AzureResource \<Rightarrow> string list option \<Rightarrow> AKSPod list" where
  "get_pods_from_cluster w cluster temenos_ns =
     (let id_parts = split_on CHR ''/'' (id' cluster);
          rg = (if ''resourceGroups'' \<in> set id_parts then part_after id_parts ''resourceGroups''
                else Some (resource_group cluster))
      in case rg of
           None \<Rightarrow> []
         | Some rgroup \<Rightarrow>
            (case cluster_namespaces w cluster of
               None \<Rightarrow> []
             | Some names \<Rightarrow>
                concat (map (\<lambda>ns. map (\<lambda>(n, phase, lbls, cs).
                                         \<lparr>pod_name = n, namespace = ns,
                                          cluster_name = name cluster,
                                          cluster_resource_group = rgroup,
                                          status = phase, labels = lbls, containers = cs\<rparr>)
                                       (namespace_pods w cluster ns))
                            (filter_namespaces temenos_ns names))))"

definition discover_pods_from_resources ::
  "aks_world \<Rightarrow> AzureResource list \<Rightarrow> string list option \<Rightarrow> AzureResource list" where
  "discover_pods_from_resources w resources temenos_ns =
     (let aks_clusters = filter is_aks_cluster resources
      in if aks_clusters = [] then []
         else concat (map (\<lambda>cluster. map to_azure_resource
                                        (get_pods_from_cluster w cluster temenos_ns))
                          aks_clusters))"

section \<open>The analyze operation (deployment.py, \_analyze\_services\_impl)\<close>

text \<open>The request, with the service dictionaries already read into resources (a missing
  key reads as the empty string or the empty dictionary).\<close>

record AnalyzeRequest =
  services :: "AzureResource list"
  selected_namespaces :: "string list option"
  force_refresh :: "bool option"

record AnalyzeResponse =
  data :: "AnalysisResultDict list"
  count :: nat
  processed :: nat

datatype http_error = HTTPException nat

text \<open>The subscription id is read from the first resource's id; \<open>None\<close> stands for the
  \<open>IndexError\<close> when \<open>subscriptions\<close> is the last part of the id.\<close>

definition subscription_of :: "AzureResource list \<Rightarrow> string option option" where
  "subscription_of svcs =
     (case svcs of
        [] \<Rightarrow> Some None
      | s # _ \<Rightarrow>
         if id' s = [] then Some None
         else let id_parts = split_on CHR ''/'' (id' s)
              in if ''subscriptions'' \<in> set id_parts
                 then (case part_after id_parts ''subscriptions'' of
                         None \<Rightarrow> None
                       | Some sub \<Rightarrow> Some (Some sub))
                 else Some None)"

text \<open>The pods added to the resources. Discovery is called without a namespace filter
  whatever the request selects; a client that cannot be built is logged and skipped.\<close>

definition discovered_pods :: "aks_world \<Rightarrow> string option \<Rightarrow> AzureResource list \<Rightarrow> AzureResource list"
  where
  "discovered_pods w subscription_id svcs =
     (if truthy subscription_id then
        (let aks_clusters =
               filter (\<lambda>s. contains (lower (type s)) ''microsoft.containerservice/managedclusters'')
                      svcs
         in if aks_clusters \<noteq> [] \<and> aks_client_ok w
            then discover_pods_from_resources w svcs None
            else [])
      else [])"

text \<open>The one place that reads the selection: the log line naming the discovered
  namespaces that were selected (in some order; the code takes them from a set).\<close>

definition selection_log :: "string list option \<Rightarrow> AzureResource list \<Rightarrow> string list option" where
  "selection_log selected aks_pods =
     (case selected of
        Some (n # ns) \<Rightarrow>
          if aks_pods \<noteq> []
          then Some (filter (\<lambda>ns'. ns' \<in> set (n # ns))
                       (remdups (map (\<lambda>p. case dict_get (properties p) ''namespace'' of
                                            Some v \<Rightarrow> v | None \<Rightarrow> ''unknown'') aks_pods)))
          else None
      | _ \<Rightarrow> None)"

definition analyze_services_impl ::
  "aks_world \<Rightarrow> rag_env \<Rightarrow> AnalyzeRequest \<Rightarrow> (http_error + AnalyzeResponse) \<times> string list option"
  where
  "analyze_services_impl w env request =
     (if services request = [] then (Inl (HTTPException 500), None)
      else case subscription_of (services request) of
        None \<Rightarrow> (Inl (HTTPException 500), None)
      | Some subscription_id \<Rightarrow>
          let aks_pods = discovered_pods w subscription_id (services request);
              logged = selection_log (selected_namespaces request) aks_pods;
              svcs = services request @ aks_pods;
              temenos_service = new_service (\<lambda>_. []) 0;
              refresh = (case force_refresh request of Some b \<Rightarrow> b | None \<Rightarrow> False);
              (results, st) = analyze_services env svcs True refresh temenos_service;
              (deduplicated_results, h) = deduplicate_components results (heap st)
          in (Inr \<lparr>data = map (result_to_dict h) deduplicated_results,
                   count = length deduplicated_results,
                   processed = length svcs\<rparr>, logged))"

section \<open>Cluster credentials (aks\_service.py, get\_cluster\_credentials)\<close>

text \<open>A subprocess either raises (time-out, command not found) or exits with a return
  code and its standard output.\<close>

datatype proc_outcome = Raised | Exited int string

datatype py_exception = NameError string | SubprocessError

text \<open>The machine the resolver runs on: the temporary and the home directory, the
  outcome of \<open>az aks get-credentials\<close>, whether the target file exists afterwards, whether
  the default file \<open>~/.kube/config\<close> exists, what \<open>kubectl config get-contexts\<close> on the
  default file prints when it is run, and the outcome of \<open>kubectl version --client\<close>.\<close>

record cred_world =
  temp_dir :: string
  home_dir :: string
  az_get_credentials :: proc_outcome
  kubeconfig_exists :: bool
  default_kubeconfig_exists :: bool
  kubectl_get_contexts :: proc_outcome
  kubectl_version :: proc_outcome

record credentials =
  kubeconfig_path :: string
  cluster :: string
  use_default :: bool

definition default_kubeconfig :: "cred_world \<Rightarrow> string" where
  "default_kubeconfig w = home_dir w @ ''/.kube/config''"

definition target_kubeconfig :: "cred_world \<Rightarrow> string \<Rightarrow> string" where
  "target_kubeconfig w cname = temp_dir w @ ''/'' @ cname @ ''_kubeconfig.yaml''"

text \<open>Name resolution for \<open>shutil\<close>. The module imports \<open>base64\<close>, \<open>subprocess\<close>,
  \<open>json\<close>, \<open>re\<close>, \<open>tempfile\<close> and \<open>os\<close>; the body of \<open>get_cluster_credentials\<close>
  imports \<open>tempfile\<close>, \<open>os\<close> and \<open>asyncio\<close>; of its nested functions,
  \<open>_get_credentials\<close> and \<open>_check_kubectl\<close> import \<open>shutil\<close> into their own local scope and
  \<open>_check_default_config\<close> imports nothing. A nested function sees its own names, those of
  the enclosing function body and those of the module, not those of its siblings.\<close>

definition module_imports :: "string list" where
  "module_imports = [''base64'', ''subprocess'', ''json'', ''re'', ''tempfile'', ''os'']"

definition get_cluster_credentials_imports :: "string list" where
  "get_cluster_credentials_imports = [''tempfile'', ''os'', ''asyncio'']"

definition get_credentials_imports :: "string list" where
  "get_credentials_imports = [''shutil'']"

definition check_default_config_imports :: "string list" where
  "check_default_config_imports = []"

definition check_kubectl_imports :: "string list" where
  "check_kubectl_imports = [''shutil'', ''os'']"

definition name_bound :: "string list \<Rightarrow> string \<Rightarrow> bool" where
  "name_bound local_imports nm =
     (nm \<in> set (local_imports @ get_cluster_credentials_imports @ module_imports))"

definition run_process :: "proc_outcome \<Rightarrow> py_exception + proc_outcome" where
  "run_process p = (case p of Raised \<Rightarrow> Inl SubprocessError | Exited rc out \<Rightarrow> Inr (Exited rc out))"

text \<open>A nested function that builds its command with \<open>shutil.which\<close> and then runs it:
  \<open>NameError\<close> when the name is unbound, before any process is started.\<close>

definition run_with_shutil :: "string list \<Rightarrow> proc_outcome \<Rightarrow> py_exception + proc_outcome" where
  "run_with_shutil local_imports p =
     (if name_bound local_imports ''shutil'' then run_process p
      else Inl (NameError ''shutil''))"

definition check_default_config :: "cred_world \<Rightarrow> py_exception + proc_outcome" where
  "check_default_config w = run_with_shutil check_default_config_imports (kubectl_get_contexts w)"

text \<open>\<open>get_cluster_credentials\<close>; the \<open>except Exception\<close> around the whole body turns
  every exception into \<open>None\<close>.\<close>

definition get_cluster_credentials :: "cred_world \<Rightarrow> string \<Rightarrow> string \<Rightarrow> credentials option"
  where
  "get_cluster_credentials w rgroup cname =
     (case run_with_shutil get_credentials_imports (az_get_credentials w) of
        Inl e \<Rightarrow> None
      | Inr Raised \<Rightarrow> None
      | Inr (Exited returncode out) \<Rightarrow>
          if returncode \<noteq> 0 \<and> \<not> kubeconfig_exists w then
            (if default_kubeconfig_exists w then
               (case check_default_config w of
                  Inl e \<Rightarrow> None
                | Inr Raised \<Rightarrow> None
                | Inr (Exited check_returncode check_stdout) \<Rightarrow>
                    if check_returncode = 0 \<and> contains check_stdout cname
                    then Some \<lparr>kubeconfig_path = default_kubeconfig w, cluster = cname,
                               use_default = True\<rparr>
                    else None)
             else None)
          else
            (case (if kubeconfig_exists w then Some (target_kubeconfig w cname)
                   else if default_kubeconfig_exists w then Some (default_kubeconfig w)
                   else None) of
               None \<Rightarrow> None
             | Some path \<Rightarrow>
                (case run_with_shutil check_kubectl_imports (kubectl_version w) of
                   Inr (Exited kubectl_returncode kubectl_out) \<Rightarrow>
                     if kubectl_returncode = 0
                     then Some \<lparr>kubeconfig_path = path, cluster = cname, use_default = False\<rparr>
                     else None
                 | _ \<Rightarrow> None)))"

section \<open>Example inputs\<close>

definition storage_account :: AzureResource where
  "storage_account =
     \<lparr>id' = ''/subscriptions/sub1/resourceGroups/rg1/providers/Microsoft.Storage/storageAccounts/transactdata'',
      name = ''transactdata'', type = ''Microsoft.Storage/storageAccounts'',
      location = ''westeurope'', resource_group = ''rg1'', tags = [], properties = []\<rparr>"

definition tagged_storage :: AzureResource where
  "tagged_storage = storage_account\<lparr>tags := [(''component'', ''transact'')]\<rparr>"

definition virtual_machine :: AzureResource where
  "virtual_machine =
     \<lparr>id' = ''/subscriptions/sub1/resourceGroups/rg1/providers/Microsoft.Compute/virtualMachines/jumpbox'',
      name = ''jumpbox'', type = ''Microsoft.Compute/virtualMachines'',
      location = ''westeurope'', resource_group = ''rg1'', tags = [], properties = []\<rparr>"

text \<open>A resource whose type string matches the deny-list and the pod type at once, with
  a component tag and a namespace.\<close>

definition tagged_hybrid :: AzureResource where
  "tagged_hybrid =
     \<lparr>id' = [], name = ''odd'', type = ''Microsoft.Storage/storageAccounts/managedClusters/pods'',
      location = [], resource_group = ''rg1'', tags = [(''component'', ''transact'')],
      properties = [(''namespace'', ''transact'')]\<rparr>"

text \<open>A pod of cluster \<open>aks1\<close> as the discovery lists it, and a pod resource with a given
  display name.\<close>

definition aks_pod :: "string \<Rightarrow> string \<Rightarrow> AKSPod" where
  "aks_pod ns n =
     \<lparr>pod_name = n, namespace = ns, cluster_name = ''aks1'', cluster_resource_group = ''rg1'',
      status = ''Running'', labels = [], containers = []\<rparr>"

definition named_pod :: "string \<Rightarrow> string \<Rightarrow> AzureResource" where
  "named_pod ns n = (to_azure_resource (aks_pod ns n))\<lparr>name := n\<rparr>"

text \<open>The same pod with labels, and a private endpoint with a platform name.\<close>

definition labelled_pod :: "string \<Rightarrow> string \<Rightarrow> dict \<Rightarrow> AKSPod" where
  "labelled_pod ns n ls = (aks_pod ns n)\<lparr>labels := ls\<rparr>"

definition private_endpoint :: AzureResource where
  "private_endpoint =
     \<lparr>id' = ''/subscriptions/sub1/resourceGroups/rg1/providers/Microsoft.Network/privateEndpoints/transact-pe'',
      name = ''transact-pe'', type = ''Microsoft.Network/privateEndpoints'',
      location = ''westeurope'', resource_group = ''rg1'', tags = [], properties = []\<rparr>"

text \<open>Knowledge services: none configured; one that always times out; one whose
  architectural query fails while the functional one answers; one whose answers begin like
  the description used without a knowledge service.\<close>

definition no_rag :: rag_env where
  "no_rag = \<lparr>has_rag = False, query_rag = (\<lambda>n k c g. Failure)\<rparr>"

definition timeout_rag :: rag_env where
  "timeout_rag = \<lparr>has_rag = True, query_rag = (\<lambda>n k c g. Timeout)\<rparr>"

definition failing_rag :: rag_env where
  "failing_rag =
     \<lparr>has_rag = True,
      query_rag = (\<lambda>n k c g. case k of Architectural \<Rightarrow> Failure
                                | Functional \<Rightarrow> Answer ''It posts the adapter events.'')\<rparr>"

definition terse_rag :: rag_env where
  "terse_rag =
     \<lparr>has_rag = True,
      query_rag = (\<lambda>n k c g. Answer (c @ '' is a Temenos microservice component deployed on AKS.''))\<rparr>"

text \<open>A knowledge service whose architectural answers begin like that description and
  are long only by a run of 500 blanks, which the formatting squeezes to one.\<close>

definition padded_rag :: rag_env where
  "padded_rag =
     \<lparr>has_rag = True,
      query_rag =
        (\<lambda>n k c g. case k of
                      Architectural \<Rightarrow>
                        Answer (c @ '' is a Temenos microservice component deployed on AKS.'' @
                                replicate 500 CHR '' '' @ ''It runs in the cluster.'')
                    | Functional \<Rightarrow> Answer ''It posts the adapter events.'')\<rparr>"

definition no_cluster :: aks_world where
  "no_cluster = \<lparr>aks_client_ok = True, cluster_namespaces = (\<lambda>c. None),
                  namespace_pods = (\<lambda>c ns. [])\<rparr>"

text \<open>A machine on which \<open>az aks get-credentials\<close> exits with 1 and writes no file, while
  \<open>~/.kube/config\<close> exists and lists the cluster \<open>aks1\<close>.\<close>

definition stale_login :: cred_world where
  "stale_login =
     \<lparr>temp_dir = ''/tmp'', home_dir = ''/home/app'',
      az_get_credentials = Exited 1 [],
      kubeconfig_exists = False,
      default_kubeconfig_exists = True,
      kubectl_get_contexts = Exited 0 ''CURRENT NAME CLUSTER AUTHINFO NAMESPACE * aks1 aks1 clusterUser_rg1_aks1'',
      kubectl_version = Exited 0 ''Client Version: v1.29.0''\<rparr>"

section \<open>Verified properties\<close>

subsection \<open>Lower-casing by bits\<close>

text \<open>The table of \<^const>\<open>lower_char\<close> read off the bits of a character (least significant
  first): a capital has bit 5 clear and bit 6 set, and its last five bits are 1 to 26 for
  the basic letters and anything but 23 and 31 for the accented ones; its small letter has
  bit 5 set. Evaluation uses this equation.\<close>

lemma lower_char_all_bits:
  "\<forall>b0 b1 b2 b3 b4 b5 b6 b7. lower_char (Char b0 b1 b2 b3 b4 b5 b6 b7) =
     (if \<not> b5 \<and> b6 \<and>
         (if b7 then \<not> (b0 \<and> b1 \<and> b2 \<and> b4)
          else (b0 \<or> b1 \<or> b2 \<or> b3 \<or> b4) \<and> \<not> (b4 \<and> b3 \<and> (b2 \<or> (b1 \<and> b0))))
      then Char b0 b1 b2 b3 b4 True b6 b7
      else Char b0 b1 b2 b3 b4 b5 b6 b7)"
  by code_simp

lemma lower_char_bits [code]:
  "lower_char (Char b0 b1 b2 b3 b4 b5 b6 b7) =
     (if \<not> b5 \<and> b6 \<and>
         (if b7 then \<not> (b0 \<and> b1 \<and> b2 \<and> b4)
          else (b0 \<or> b1 \<or> b2 \<or> b3 \<or> b4) \<and> \<not> (b4 \<and> b3 \<and> (b2 \<or> (b1 \<and> b0))))
      then Char b0 b1 b2 b3 b4 True b6 b7
      else Char b0 b1 b2 b3 b4 b5 b6 b7)"
  using lower_char_all_bits by blast

text \<open>Accented capitals are lower-cased like the basic ones, so two namespaces that
  differ in the case of an accented letter have one grouping key.\<close>

lemma lower_accented:
  "lower [CHR 0xC9, CHR ''t'', CHR 0xE9] = [CHR 0xE9, CHR ''t'', CHR 0xE9]"
  "lower [CHR 0xD7, CHR 0xDF, CHR 0xFF, CHR ''Z'', CHR ''@'', CHR ''[''] =
     [CHR 0xD7, CHR 0xDF, CHR 0xFF, CHR ''z'', CHR ''@'', CHR ''['']"
  by code_simp+

lemma accented_namespaces_share_key:
  "grouping_key (to_azure_resource (aks_pod [CHR 0xC9, CHR ''t'', CHR 0xE9] ''pod-a'')) info =
   grouping_key (to_azure_resource (aks_pod [CHR 0xE9, CHR ''t'', CHR 0xE9] ''pod-b'')) info'"
  by (simp add: grouping_key_def to_azure_resource_def aks_pod_def get_or_empty_def dict_get_def
        Let_def lower_def lower_char_bits)

subsection \<open>Substrings\<close>

lemma startswith_iff: "startswith s p \<longleftrightarrow> (\<exists>q. s = p @ q)"
  by (induction s p rule: startswith.induct) auto

lemma contains_iff: "contains s sub \<longleftrightarrow> (\<exists>p q. s = p @ sub @ q)"
proof (induction s)
  case Nil
  then show ?case by auto
next
  case (Cons c cs)
  show ?case
  proof
    assume "contains (c # cs) sub"
    then consider "startswith (c # cs) sub" | "contains cs sub" by auto
    then show "\<exists>p q. c # cs = p @ sub @ q"
    proof cases
      case 1
      then obtain q where "c # cs = sub @ q" by (auto simp: startswith_iff)
      then have "c # cs = [] @ sub @ q" by simp
      then show ?thesis by blast
    next
      case 2
      then obtain p q where "cs = p @ sub @ q" using Cons.IH by blast
      then have "c # cs = (c # p) @ sub @ q" by simp
      then show ?thesis by blast
    qed
  next
    assume "\<exists>p q. c # cs = p @ sub @ q"
    then obtain p q where pq: "c # cs = p @ sub @ q" by blast
    show "contains (c # cs) sub"
    proof (cases p)
      case Nil
      with pq have "startswith (c # cs) sub" by (auto simp: startswith_iff)
      then show ?thesis by simp
    next
      case (Cons d ds)
      with pq have "cs = ds @ sub @ q" by simp
      then have "contains cs sub" using Cons.IH by blast
      then show ?thesis by simp
    qed
  qed
qed

lemma contains_trans: "contains s t \<Longrightarrow> contains t u \<Longrightarrow> contains s u"
proof -
  assume "contains s t" "contains t u"
  then obtain p q p' q' where "s = p @ t @ q" "t = p' @ u @ q'"
    by (auto simp: contains_iff)
  then have "s = (p @ p') @ u @ (q' @ q)" by simp
  then show ?thesis unfolding contains_iff by blast
qed

lemma contains_any_iff: "contains_any s ps \<longleftrightarrow> (\<exists>p \<in> set ps. contains s p)"
  by (simp add: contains_any_def list_ex_iff)

lemma contains_any_coarser:
  assumes "contains_any s ps" and "list_all (\<lambda>p. contains_any p qs) ps"
  shows "contains_any s qs"
proof -
  from assms(1) obtain p where p: "p \<in> set ps" "contains s p" by (auto simp: contains_any_iff)
  with assms(2) obtain q where "q \<in> set qs" "contains p q"
    by (auto simp: contains_any_iff list_all_iff)
  with p show ?thesis by (auto simp: contains_any_iff intro: contains_trans)
qed

lemma infrastructure_in_grouping_list:
  "list_all (\<lambda>p. contains_any p grouping_infra_types) infrastructure_types"
  by code_simp

lemma grouping_in_unidentified_list:
  "list_all (\<lambda>p. contains_any p unidentified_infra_types) grouping_infra_types"
  by code_simp


subsection \<open>The relevance filter on the example namespaces\<close>

text \<open>
  C8. Without an explicit namespace filter, the relevance filter applied to
  \<open>kube-system\<close>, \<open>eventstore\<close>, \<open>deposits202507\<close>, \<open>randomteam\<close> keeps the last three and
  drops \<open>kube-system\<close>: the first is a fixed system namespace, the next two match a
  platform pattern, and \<open>randomteam\<close> matches none but has no system prefix.
\<close>

theorem relevance_filter_example:
  "filter_namespaces None [''kube-system'', ''eventstore'', ''deposits202507'', ''randomteam'']
     = [''eventstore'', ''deposits202507'', ''randomteam'']
   \<and> ''kube-system'' \<in> set system_namespaces
   \<and> contains_any (lower ''eventstore'') namespace_patterns
   \<and> contains_any (lower ''deposits202507'') namespace_patterns
   \<and> \<not> contains_any (lower ''randomteam'') namespace_patterns
   \<and> \<not> list_ex (startswith ''randomteam'') system_prefixes"
  by code_simp

subsection \<open>The aggregator\<close>

lemma first_seen_snoc:
  "first_seen (xs @ [x]) = (if x \<in> set xs then first_seen xs else first_seen xs @ [x])"
  by (simp add: first_seen_def)

lemma set_first_seen [simp]: "set (first_seen xs) = set xs"
  by (simp add: first_seen_def)

lemma distinct_first_seen [simp]: "distinct (first_seen xs)"
  by (simp add: first_seen_def)

lemma add_new_snoc:
  "add_new xs (ys @ [y]) =
     (if y \<in> set (add_new xs ys) then add_new xs ys else add_new xs ys @ [y])"
  by (auto simp: add_new_def first_seen_snoc)

lemma add_new_Nil [simp]: "add_new xs [] = xs"
  by (simp add: add_new_def first_seen_def)

lemma dedup_loop_snoc: "dedup_loop (rs @ [r]) st = dedup_step r (dedup_loop rs st)"
  by (induction rs arbitrary: st) auto

lemma map_filter_snoc:
  "List.map_filter f (xs @ [x]) = List.map_filter f xs @ (case f x of None \<Rightarrow> [] | Some y \<Rightarrow> [y])"
  by (simp add: List.map_filter_def split: option.splits)

lemma set_map_filter: "set (List.map_filter f xs) = {y. \<exists>x \<in> set xs. f x = Some y}"
  by (induction xs) (auto simp: List.map_filter_def split: option.splits)

lemma later_duplicates_snoc:
  "later_duplicates seen (rs @ [r]) =
     later_duplicates seen rs @
     (case key_of r of
        None \<Rightarrow> []
      | Some k \<Rightarrow> if k \<in> set seen \<union> set (List.map_filter key_of rs) then [r] else [])"
proof (induction rs arbitrary: seen)
  case Nil
  then show ?case by (simp add: List.map_filter_def split: option.splits)
next
  case (Cons a rs)
  show ?case
  proof (cases "key_of a")
    case None
    then show ?thesis using Cons.IH [of seen]
      by (simp add: List.map_filter_def split: option.splits)
  next
    case (Some k)
    then show ?thesis using Cons.IH [of seen] Cons.IH [of "k # seen"]
      by (auto simp: List.map_filter_def split: option.splits)
  qed
qed

lemma representative_snoc:
  "representative (rs @ [r]) k =
     (case representative rs k of
        Some e \<Rightarrow> Some e
      | None \<Rightarrow> if key_of r = Some k then Some r else None)"
  by (induction rs) (auto simp: representative_def split: option.splits)

lemma representative_None_iff:
  "representative rs k = None \<longleftrightarrow> k \<notin> set (List.map_filter key_of rs)"
  by (auto simp: representative_def find_None_iff set_map_filter)

lemma representative_key: "representative rs k = Some e \<Longrightarrow> key_of e = Some k"
  by (auto simp: representative_def find_Some_iff)


lemma dedup_step_unkeyed:
  "key_of r = None \<Longrightarrow> dedup_step r st = st\<lparr>unidentified := unidentified st @ [r]\<rparr>"
  by (auto simp: dedup_step_def key_of_def split: option.split)

lemma dedup_step_new:
  "key_of r = Some k \<Longrightarrow> map_of (component_map st) k = None \<Longrightarrow>
   dedup_step r st = st\<lparr>component_map := component_map st @ [(k, r)]\<rparr>"
  by (auto simp: dedup_step_def key_of_def split: option.split)

lemma dedup_step_merge:
  "key_of r = Some k \<Longrightarrow> map_of (component_map st) k = Some e \<Longrightarrow>
   component_info e = Some ei \<Longrightarrow>
   dedup_step r st =
     st\<lparr>list_contents := (list_contents st)(related_services ei :=
            (if name (service r) \<in> set (list_contents st (related_services ei))
             then list_contents st (related_services ei)
             else list_contents st (related_services ei) @ [name (service r)]))\<rparr>"
  by (auto simp: dedup_step_def key_of_def split: option.split)

lemma map_of_tabulate:
  "map_of (map (\<lambda>k. (k, f k)) ks) k = (if k \<in> set ks then Some (f k) else None)"
  by (induction ks) auto

lemma key_of_has_info: "key_of e = Some k \<Longrightarrow> \<exists>ei. component_info e = Some ei"
  by (cases "component_info e") (auto simp: key_of_def)

lemma set_group_keys: "set (group_keys rs) = set (List.map_filter key_of rs)"
  by (simp add: group_keys_def)

lemma representative_stable:
  "k \<in> set (List.map_filter key_of rs) \<Longrightarrow> representative (rs @ [r]) k = representative rs k"
  by (cases "representative rs k") (auto simp: representative_snoc representative_None_iff)

lemma later_duplicates_keys:
  "d \<in> set (later_duplicates seen rs) \<Longrightarrow>
   \<exists>k. key_of d = Some k \<and> k \<in> set seen \<union> set (List.map_filter key_of rs)"
proof (induction rs arbitrary: seen)
  case Nil
  then show ?case by simp
next
  case (Cons a rs)
  show ?case
  proof (cases "key_of a")
    case None
    with Cons.prems have "d \<in> set (later_duplicates seen rs)" by simp
    from Cons.IH [OF this] None show ?thesis
      by (auto simp: List.map_filter_def)
  next
    case (Some k)
    show ?thesis
    proof (cases "k \<in> set seen")
      case True
      with Some Cons.prems have "d = a \<or> d \<in> set (later_duplicates seen rs)" by simp
      then show ?thesis
      proof
        assume "d = a"
        with Some True show ?thesis by auto
      next
        assume "d \<in> set (later_duplicates seen rs)"
        from Cons.IH [OF this] Some show ?thesis by (auto simp: List.map_filter_def)
      qed
    next
      case False
      with Some Cons.prems have "d \<in> set (later_duplicates (k # seen) rs)" by simp
      from Cons.IH [OF this] Some show ?thesis by (auto simp: List.map_filter_def)
    qed
  qed
qed

lemma list_of_representative_stable:
  assumes "d \<in> set (later_duplicates [] rs)"
  shows "list_of_representative (rs @ [r]) d = list_of_representative rs d"
proof -
  from later_duplicates_keys [OF assms] obtain k where
    k: "key_of d = Some k" "k \<in> set (List.map_filter key_of rs)" by auto
  then show ?thesis by (simp add: list_of_representative_def representative_stable)
qed

lemma merged_names_unchanged:
  assumes "later_duplicates [] (rs @ [r]) = later_duplicates [] rs"
  shows "merged_names (rs @ [r]) a = merged_names rs a"
proof -
  have "filter (\<lambda>d. list_of_representative (rs @ [r]) d = Some a) (later_duplicates [] rs)
      = filter (\<lambda>d. list_of_representative rs d = Some a) (later_duplicates [] rs)"
    by (rule filter_cong) (simp_all add: list_of_representative_stable)
  with assms show ?thesis by (simp add: merged_names_def)
qed

lemma merged_names_duplicate:
  assumes "key_of r = Some k" "k \<in> set (List.map_filter key_of rs)"
    "representative rs k = Some e" "component_info e = Some ei"
  shows "merged_names (rs @ [r]) a =
         merged_names rs a @ (if a = related_services ei then [name (service r)] else [])"
proof -
  have ld: "later_duplicates [] (rs @ [r]) = later_duplicates [] rs @ [r]"
    using assms(1,2) by (simp add: later_duplicates_snoc)
  have old: "filter (\<lambda>d. list_of_representative (rs @ [r]) d = Some a) (later_duplicates [] rs)
      = filter (\<lambda>d. list_of_representative rs d = Some a) (later_duplicates [] rs)"
    by (rule filter_cong) (simp_all add: list_of_representative_stable)
  have new: "list_of_representative (rs @ [r]) r = Some (related_services ei)"
    using assms by (simp add: list_of_representative_def representative_stable)
  show ?thesis using old new by (auto simp: merged_names_def ld)
qed

lemma dedup_loop_characterisation:
  "dedup_loop rs \<lparr>component_map = [], unidentified = [], list_contents = h\<rparr> =
     \<lparr>component_map = map (\<lambda>k. (k, the (representative rs k))) (group_keys rs),
      unidentified = filter (\<lambda>r. key_of r = None) rs,
      list_contents = (\<lambda>a. add_new (h a) (merged_names rs a))\<rparr>"
proof (induction rs rule: rev_induct)
  case Nil
  show ?case
    by (simp add: group_keys_def first_seen_def List.map_filter_def merged_names_def)
next
  case (snoc r rs)
  let ?st = "\<lparr>component_map = map (\<lambda>k. (k, the (representative rs k))) (group_keys rs),
              unidentified = filter (\<lambda>r. key_of r = None) rs,
              list_contents = (\<lambda>a. add_new (h a) (merged_names rs a))\<rparr>"
  have step: "dedup_loop (rs @ [r]) \<lparr>component_map = [], unidentified = [], list_contents = h\<rparr>
      = dedup_step r ?st"
    by (simp add: dedup_loop_snoc snoc.IH)
  have reps: "map (\<lambda>k. (k, the (representative (rs @ [r]) k))) (group_keys rs)
      = map (\<lambda>k. (k, the (representative rs k))) (group_keys rs)"
    by (rule map_cong) (simp_all add: set_group_keys representative_stable)
  show ?case
  proof (cases "key_of r")
    case None
    have gk: "group_keys (rs @ [r]) = group_keys rs"
      using None by (simp add: group_keys_def map_filter_snoc)
    have ld: "later_duplicates [] (rs @ [r]) = later_duplicates [] rs"
      using None by (simp add: later_duplicates_snoc)
    show ?thesis
      unfolding step dedup_step_unkeyed [OF None]
      using None by (simp add: gk reps merged_names_unchanged [OF ld])
  next
    case (Some k)
    show ?thesis
    proof (cases "k \<in> set (List.map_filter key_of rs)")
      case False
      have gk: "group_keys (rs @ [r]) = group_keys rs @ [k]"
        using Some False by (simp add: group_keys_def map_filter_snoc first_seen_snoc)
      have ld: "later_duplicates [] (rs @ [r]) = later_duplicates [] rs"
        using Some False by (simp add: later_duplicates_snoc)
      have absent: "map_of (component_map ?st) k = None"
        using False by (simp add: map_of_tabulate set_group_keys)
      have rep: "representative (rs @ [r]) k = Some r"
        using Some False by (simp add: representative_snoc representative_None_iff [symmetric])
      show ?thesis
        unfolding step dedup_step_new [OF Some absent]
        using Some by (simp add: gk reps rep merged_names_unchanged [OF ld])
    next
      case True
      then obtain e where e: "representative rs k = Some e"
        by (cases "representative rs k") (auto simp: representative_None_iff)
      then obtain ei where ei: "component_info e = Some ei"
        using key_of_has_info [OF representative_key] by blast
      have gk: "group_keys (rs @ [r]) = group_keys rs"
        using Some True by (simp add: group_keys_def map_filter_snoc first_seen_snoc)
      have present: "map_of (component_map ?st) k = Some e"
        using True e by (simp add: map_of_tabulate set_group_keys)
      have lists_eq: "(\<lambda>a. add_new (h a) (merged_names (rs @ [r]) a))
          = (list_contents ?st)(related_services ei :=
              (if name (service r) \<in> set (list_contents ?st (related_services ei))
               then list_contents ?st (related_services ei)
               else list_contents ?st (related_services ei) @ [name (service r)]))"
        by (rule ext) (simp add: merged_names_duplicate [OF Some True e ei] add_new_snoc)
      show ?thesis
        unfolding step dedup_step_merge [OF Some present ei]
        using Some by (simp add: gk reps lists_eq)
    qed
  qed
qed

lemma deduplicate_components_eq:
  "deduplicate_components rs h =
     (List.map_filter (representative rs) (group_keys rs) @
      filter (\<lambda>r. \<not> is_noise r) (filter (\<lambda>r. key_of r = None) rs),
      \<lambda>a. add_new (h a) (merged_names rs a))"
proof -
  have "map (\<lambda>k. the (representative rs k)) (group_keys rs)
      = List.map_filter (representative rs) (group_keys rs)"
  proof -
    have all: "\<forall>k \<in> set (group_keys rs). representative rs k \<noteq> None"
      by (simp add: set_group_keys representative_None_iff)
    have "\<And>ks. \<forall>k \<in> set ks. representative rs k \<noteq> None \<Longrightarrow>
        map (\<lambda>k. the (representative rs k)) ks = List.map_filter (representative rs) ks"
    proof -
      fix ks show "\<forall>k \<in> set ks. representative rs k \<noteq> None \<Longrightarrow>
        map (\<lambda>k. the (representative rs k)) ks = List.map_filter (representative rs) ks"
        by (induction ks) (auto simp: List.map_filter_def)
    qed
    from this [OF all] show ?thesis .
  qed
  then show ?thesis
    by (simp add: deduplicate_components_def Let_def dedup_loop_characterisation comp_def)
qed

text \<open>
  C3, as the claim states it, fails: an unclassified virtual machine does not match the
  classifier's deny-list (storage, key vault, network, monitoring workspace), yet the
  aggregator drops it.
\<close>

theorem unclassified_vm_dropped:
  "fst (deduplicate_components
          [\<lparr>service = virtual_machine, component_info = None, error = None\<rparr>] (\<lambda>a. [])) = []
   \<and> \<not> is_infrastructure virtual_machine"
  by code_simp

text \<open>
  C3, amended. For every list of results and every store, the aggregator returns one
  result per distinct grouping key, where a key is had by the classified results that are
  pods or whose type contains none of the aggregator's five infrastructure names; the
  result returned for a key is the first one with that key, and the keys come in order of
  first appearance. After them come exactly the other results (unclassified, or classified
  with an infrastructure type) whose type contains none of the aggregator's seven
  names (the five and the two virtual-machine types), in their order. In the store, each
  list grows by the display names of the later duplicates whose representative holds it,
  each name once and only if the list did not have it, in order of appearance.
\<close>

theorem aggregate_characterisation:
  "deduplicate_components results h =
     (List.map_filter (representative results) (group_keys results) @
      filter (\<lambda>r. \<not> is_noise r) (filter (\<lambda>r. key_of r = None) results),
      \<lambda>a. add_new (h a) (merged_names results a))
   \<and> distinct (group_keys results)
   \<and> set (group_keys results) = {k. \<exists>r \<in> set results. key_of r = Some k}
   \<and> length (List.map_filter (representative results) (group_keys results))
       = length (group_keys results)"
proof -
  have len: "length (List.map_filter (representative results) (group_keys results))
       = length (group_keys results)"
  proof -
    have all: "\<forall>k \<in> set (group_keys results). representative results k \<noteq> None"
      by (simp add: set_group_keys representative_None_iff)
    have "\<And>ks. \<forall>k \<in> set ks. representative results k \<noteq> None \<Longrightarrow>
        length (List.map_filter (representative results) ks) = length ks"
    proof -
      fix ks show "\<forall>k \<in> set ks. representative results k \<noteq> None \<Longrightarrow>
        length (List.map_filter (representative results) ks) = length ks"
        by (induction ks) (auto simp: List.map_filter_def)
    qed
    from this [OF all] show ?thesis .
  qed
  have dist: "distinct (group_keys results)"
    by (simp add: group_keys_def)
  show ?thesis
    by (simp add: deduplicate_components_eq len dist set_group_keys set_map_filter)
qed

lemma deduplicate_components_subset:
  assumes "x \<in> set (fst (deduplicate_components rs h))"
  shows "x \<in> set rs \<and> (key_of x = None \<longrightarrow> \<not> is_noise x)"
proof -
  from assms consider k where "k \<in> set (group_keys rs)" "representative rs k = Some x"
    | "x \<in> set rs" "key_of x = None" "\<not> is_noise x"
    by (auto simp: deduplicate_components_eq set_map_filter)
  then show ?thesis
  proof cases
    case 1
    then have "x \<in> set rs" "key_of x = Some k"
      by (auto simp: representative_def find_Some_iff)
    then show ?thesis by simp
  next
    case 2
    then show ?thesis by simp
  qed
qed

subsection \<open>Enrichment and its cache\<close>

lemma new_list_facts:
  "new_list st = (r, st') \<Longrightarrow>
     component_cache st' = component_cache st \<and> rag_calls st' = rag_calls st"
  by (auto simp: new_list_def)

lemma fetch_component_Some:
  assumes "fetch_component env svc True cname category st = (Some info, st')"
  shows "component_cache st' = (component_cache st)(lower cname \<mapsto> info)"
    and "rag_calls st' \<le> rag_calls st + 2"
    and "component_name info = cname"
  using assms
  by (auto simp: fetch_component_def Let_def new_list_def cache_put_def
           split: if_splits option.splits prod.splits)

lemma fetch_component_None:
  assumes "fetch_component env svc True cname category st = (None, st')"
  shows "component_cache st' = component_cache st"
  using assms
  by (auto simp: fetch_component_def Let_def new_list_def cache_put_def
           split: if_splits option.splits prod.splits)

lemma identify_component_hit:
  assumes "is_potential_temenos_component svc"
    and "extract_component_name svc = Some e"
    and "component_cache st (lower (normalizedName e)) = Some c"
    and "\<not> (is_minimal (normalizedName e) c \<and> has_rag env)"
  shows "identify_component env svc True False st =
           (Some (c\<lparr>component_type := determine_component_type svc\<rparr>), st)"
  using assms by (auto simp: identify_component_def Let_def)

lemma identify_component_Some_cached:
  assumes "identify_component env svc True False st = (Some info, st')"
    and "extract_component_name svc = Some e"
  shows "\<exists>c. component_cache st' (lower (normalizedName e)) = Some c"
    and "rag_calls st' \<le> rag_calls st + 2"
proof -
  from assms have pot: "is_potential_temenos_component svc"
    by (auto simp: identify_component_def split: if_splits)
  show "\<exists>c. component_cache st' (lower (normalizedName e)) = Some c"
    using assms pot
    by (auto simp: identify_component_def Let_def
             split: option.splits if_splits dest!: fetch_component_Some(1))
  show "rag_calls st' \<le> rag_calls st + 2"
    using assms pot
    by (auto simp: identify_component_def Let_def
             split: option.splits if_splits dest!: fetch_component_Some(2))
qed

text \<open>
  C4 does not hold of the code. The pods \<open>pod-a\<close> and \<open>pod-b\<close> of namespace
  \<open>adapterservice\<close> classify to the same canonical name. When the knowledge service
  answers the architectural query with a short text that begins like the description
  used without a knowledge service, the staleness check takes the cached answer for that
  description and evicts it at the second call, although its comment says that it looks
  for entries made without the knowledge service: the two calls (caching on, no forced
  refresh, one instance) send four queries.
\<close>

theorem terse_answer_queried_twice:
  "rag_calls
     (snd (identify_component terse_rag (named_pod ''adapterservice'' ''pod-b'') True False
        (snd (identify_component terse_rag (named_pod ''adapterservice'' ''pod-a'') True False
           (new_service (\<lambda>a. []) 0))))) = 4
   \<and> map_option normalizedName (extract_component_name (named_pod ''adapterservice'' ''pod-a''))
       = map_option normalizedName (extract_component_name (named_pod ''adapterservice'' ''pod-b''))"
  by code_simp

text \<open>
  When the cache does answer. Let two resources classify to canonical names that are equal
  after lower-casing, let the first call of \<open>identify_component\<close> (caching on, no forced
  refresh) return knowledge, and let the entry then cached under the name not be one that
  the staleness check evicts (its architectural text begins with the minimal description
  of the second resource's canonical name, is shorter than 500 characters, and the
  knowledge service is available). Then the second call on the resulting state is answered
  from the cache: it returns the cached entry with the type label of the second resource,
  leaves the state as it is, and both calls together send at most two queries.
\<close>

lemma second_call_from_cache:
  assumes "extract_component_name s1 = Some e1"
    and "extract_component_name s2 = Some e2"
    and "is_potential_temenos_component s2"
    and "lower (normalizedName e1) = lower (normalizedName e2)"
    and "identify_component env s1 True False st = (Some i1, st1)"
    and "\<forall>c. component_cache st1 (lower (normalizedName e2)) = Some c \<longrightarrow>
             \<not> (is_minimal (normalizedName e2) c \<and> has_rag env)"
  shows "\<exists>c. component_cache st1 (lower (normalizedName e2)) = Some c \<and>
             identify_component env s2 True False st1 =
               (Some (c\<lparr>component_type := determine_component_type s2\<rparr>), st1) \<and>
             rag_calls (snd (identify_component env s2 True False st1)) \<le> rag_calls st + 2"
proof -
  from identify_component_Some_cached [OF assms(5) assms(1)] assms(4)
  obtain c where c: "component_cache st1 (lower (normalizedName e2)) = Some c"
    and calls: "rag_calls st1 \<le> rag_calls st + 2" by auto
  from assms(6) c have "\<not> (is_minimal (normalizedName e2) c \<and> has_rag env)" by blast
  from identify_component_hit [OF assms(3) assms(2) c this] c calls
  show ?thesis by simp
qed

lemma second_call_from_cache_example:
  "rag_calls
     (snd (identify_component timeout_rag (named_pod ''adapterservice'' ''pod-b'') True False
        (snd (identify_component timeout_rag (named_pod ''adapterservice'' ''pod-a'') True False
           (new_service (\<lambda>a. []) 0)))))
   \<le> rag_calls (new_service (\<lambda>a. []) 0) + 2"
proof -
  let ?pa = "named_pod ''adapterservice'' ''pod-a''"
  let ?pb = "named_pod ''adapterservice'' ''pod-b''"
  let ?st = "new_service (\<lambda>a. []) 0"
  let ?X = "identify_component timeout_rag ?pa True False ?st"
  let ?e1 = "\<lparr>componentName = ''pod-a'', normalizedName = ''Adapter Microservice'',
              componentCategory = ''microservice''\<rparr>"
  let ?e2 = "\<lparr>componentName = ''pod-b'', normalizedName = ''Adapter Microservice'',
              componentCategory = ''microservice''\<rparr>"
  have e1: "extract_component_name ?pa = Some ?e1" by code_simp
  have e2: "extract_component_name ?pb = Some ?e2" by code_simp
  have pot: "is_potential_temenos_component ?pb" by code_simp
  have same: "lower (normalizedName ?e1) = lower (normalizedName ?e2)" by simp
  have some: "fst ?X \<noteq> None" by code_simp
  then have first: "?X = (Some (the (fst ?X)), snd ?X)"
    by (cases ?X) auto
  have cached: "component_cache (snd ?X) (lower (normalizedName ?e2)) = fst ?X" by code_simp
  have long: "\<not> is_minimal (normalizedName ?e2) (the (fst ?X))" by code_simp
  have fresh: "\<forall>c. component_cache (snd ?X) (lower (normalizedName ?e2)) = Some c \<longrightarrow>
                 \<not> (is_minimal (normalizedName ?e2) c \<and> has_rag timeout_rag)"
    using cached long by (metis option.sel)
  from second_call_from_cache [OF e1 e2 pot same first fresh]
  show ?thesis by blast
qed

lemma timeout_degrades_to_fallback:
  assumes "has_rag env"
    and "query_rag env (rag_calls st) Architectural cname category = Timeout"
    and "query_rag env (Suc (rag_calls st)) Functional cname category \<noteq> Malformed"
  shows "\<exists>info st'. fetch_component env svc uc cname category st = (Some info, st') \<and>
           architectural_overview info = fallback_architectural cname"
proof -
  from assms(3) obtain tf where
    "response_text (query_rag env (Suc (rag_calls st)) Functional cname category) = Some tf"
    by (cases "query_rag env (Suc (rag_calls st)) Functional cname category") auto
  with assms(1,2) show ?thesis
    by (simp add: fetch_component_def Let_def new_list_def cache_put_def
                  format_rag_response_def)
qed

lemma functional_timeout_degrades_to_fallback:
  assumes "has_rag env"
    and "query_rag env (rag_calls st) Architectural cname category \<noteq> Malformed"
    and "query_rag env (Suc (rag_calls st)) Functional cname category = Timeout"
  shows "\<exists>info st'. fetch_component env svc uc cname category st = (Some info, st') \<and>
           functional_overview info = fallback_functional cname"
proof -
  from assms(2) obtain ta where
    "response_text (query_rag env (rag_calls st) Architectural cname category) = Some ta"
    by (cases "query_rag env (rag_calls st) Architectural cname category") auto
  with assms(1,3) show ?thesis
    by (simp add: fetch_component_def Let_def new_list_def cache_put_def
                  format_rag_response_def)
qed

lemma failure_keeps_marker:
  assumes "has_rag env"
    and "query_rag env (rag_calls st) Architectural cname category = Failure"
    and "query_rag env (Suc (rag_calls st)) Functional cname category \<noteq> Malformed"
  shows "\<exists>info st'. fetch_component env svc uc cname category st = (Some info, st') \<and>
           architectural_overview info = not_available_error"
proof -
  have marker: "format_rag_response not_available_error = not_available_error"
    "not_available_error \<noteq> not_available" "not_available_error \<noteq> not_available_timeout"
    by code_simp+
  from assms(3) obtain tf where
    "response_text (query_rag env (Suc (rag_calls st)) Functional cname category) = Some tf"
    by (cases "query_rag env (Suc (rag_calls st)) Functional cname category") auto
  with assms(1,2) show ?thesis
    by (simp add: fetch_component_def Let_def new_list_def cache_put_def marker)
qed

text \<open>
  C5. When the architectural query fails with a transport error while the functional
  query answers, \<open>identify_component\<close> returns knowledge, but its architectural half is
  the bare marker text and not the templated fallback paragraph that a time-out gets.
\<close>

theorem transport_error_keeps_marker:
  "map_option architectural_overview
     (fst (identify_component failing_rag (named_pod ''adapterservice'' ''pod-a'') True False
             (new_service (\<lambda>a. []) 0)))
     = Some ''Information not available - error''
   \<and> ''Information not available - error'' \<noteq> fallback_architectural ''Adapter Microservice''"
  by code_simp

subsection \<open>The batch analysis\<close>

lemma analyze_each_append:
  "analyze_each env uc fr (xs @ ys) st =
     (let (rs1, st1) = analyze_each env uc fr xs st;
          (rs2, st2) = analyze_each env uc fr ys st1
      in (rs1 @ rs2, st2))"
  by (induction xs arbitrary: st) (simp_all add: Let_def split: prod.splits)

lemma analyze_batches_sequential:
  "0 < n \<Longrightarrow> analyze_batches env uc fr (batches n xs) st = analyze_each env uc fr xs st"
proof (induction n xs arbitrary: st rule: batches.induct)
  case (1 n xs)
  show ?case
  proof (cases "xs = []")
    case True
    then show ?thesis by (simp add: batches.simps)
  next
    case False
    with "1.prems" have b: "batches n xs = take n xs # batches n (drop n xs)"
      by (subst batches.simps) simp
    have "analyze_each env uc fr xs st = analyze_each env uc fr (take n xs @ drop n xs) st"
      by simp
    also have "\<dots> = (let (rs1, st1) = analyze_each env uc fr (take n xs) st;
                         (rs2, st2) = analyze_each env uc fr (drop n xs) st1
                     in (rs1 @ rs2, st2))"
      by (rule analyze_each_append)
    finally show ?thesis
      using "1.IH" "1.prems" False by (simp add: b Let_def split: prod.splits)
  qed
qed

lemma analyze_services_unfold:
  "analyze_services env svcs uc fr st =
     (let potential_services = filter is_potential_temenos_component svcs
      in if potential_services = [] then ([], st)
         else
           let (results, st1) = analyze_each env uc fr potential_services st;
               skipped_services = filter (\<lambda>s. s \<notin> set potential_services) svcs
           in (results @
               map (\<lambda>skipped. \<lparr>service = skipped, component_info = None, error = None\<rparr>)
                   skipped_services, st1))"
  by (simp add: analyze_services_def analyze_batches_sequential Let_def)

lemma analyze_each_services:
  "map service (fst (analyze_each env uc fr ss st)) = ss"
proof (induction ss arbitrary: st)
  case Nil
  show ?case by simp
next
  case (Cons s ss)
  obtain info st1 where id: "identify_component env s uc fr st = (info, st1)"
    by (cases "identify_component env s uc fr st")
  obtain rs st2 where rest: "analyze_each env uc fr ss st1 = (rs, st2)"
    by (cases "analyze_each env uc fr ss st1")
  from Cons.IH [of st1] rest have "map service rs = ss" by simp
  with id rest show ?case by (simp add: Let_def)
qed

lemma identify_component_potential:
  "identify_component env svc uc fr st = (Some info, st') \<Longrightarrow> is_potential_temenos_component svc"
  by (auto simp: identify_component_def split: if_splits)

lemma analyze_each_classified:
  "r \<in> set (fst (analyze_each env uc fr ss st)) \<Longrightarrow> component_info r \<noteq> None \<Longrightarrow>
   is_potential_temenos_component (service r)"
proof (induction ss arbitrary: st)
  case Nil
  then show ?case by simp
next
  case (Cons s ss)
  obtain info st1 where id: "identify_component env s uc fr st = (info, st1)"
    by (cases "identify_component env s uc fr st")
  obtain rs st2 where rest: "analyze_each env uc fr ss st1 = (rs, st2)"
    by (cases "analyze_each env uc fr ss st1")
  from Cons.prems(1) id rest
  consider "r = \<lparr>service = s, component_info = info,
                  error = (if info = None then Some could_not_identify else None)\<rparr>"
    | "r \<in> set (fst (analyze_each env uc fr ss st1))"
    by (auto simp: Let_def)
  then show ?case
  proof cases
    case 1
    with Cons.prems(2) id show ?thesis by (auto dest: identify_component_potential)
  next
    case 2
    from Cons.IH [OF this Cons.prems(2)] show ?thesis .
  qed
qed

lemma analyze_services_classified:
  assumes "r \<in> set (fst (analyze_services env svcs uc fr st))" "component_info r \<noteq> None"
  shows "is_potential_temenos_component (service r)"
proof -
  let ?pot = "filter is_potential_temenos_component svcs"
  from assms have "r \<in> set (fst (analyze_each env uc fr ?pot st))"
    by (auto simp: analyze_services_unfold Let_def split: if_splits prod.splits)
  from analyze_each_classified [OF this assms(2)] show ?thesis .
qed

lemma analyze_services_complete:
  assumes "filter is_potential_temenos_component svcs \<noteq> []"
  shows "map service (fst (analyze_services env svcs uc fr st)) =
           filter is_potential_temenos_component svcs @
           filter (\<lambda>s. \<not> is_potential_temenos_component s) svcs"
    and "length (fst (analyze_services env svcs uc fr st)) = length svcs"
proof -
  let ?pot = "filter is_potential_temenos_component svcs"
  have skipped: "filter (\<lambda>s. s \<notin> set ?pot) svcs = filter (\<lambda>s. \<not> is_potential_temenos_component s) svcs"
    by (rule filter_cong) auto
  have each: "map service (fst (analyze_each env uc fr ?pot st)) = ?pot"
    by (rule analyze_each_services)
  obtain rs st1 where run: "analyze_each env uc fr ?pot st = (rs, st1)"
    by (cases "analyze_each env uc fr ?pot st")
  with each have rs: "map service rs = ?pot" by simp
  have "fst (analyze_services env svcs uc fr st) =
          rs @ map (\<lambda>skipped. \<lparr>service = skipped, component_info = None, error = None\<rparr>)
                   (filter (\<lambda>s. s \<notin> set ?pot) svcs)"
    using assms run by (simp add: analyze_services_unfold Let_def)
  then show m: "map service (fst (analyze_services env svcs uc fr st)) =
           ?pot @ filter (\<lambda>s. \<not> is_potential_temenos_component s) svcs"
    unfolding skipped using rs by (simp add: comp_def)
  have "length (map service (fst (analyze_services env svcs uc fr st))) = length svcs"
    unfolding m using sum_length_filter_compl [of is_potential_temenos_component svcs] by simp
  then show "length (fst (analyze_services env svcs uc fr st)) = length svcs" by simp
qed

lemma analyze_services_no_candidate:
  "filter is_potential_temenos_component svcs = [] \<Longrightarrow>
   analyze_services env svcs uc fr st = ([], st)"
  by (simp add: analyze_services_unfold)

text \<open>
  C6. A list that is not empty but holds no candidate (here a single storage account
  without tags) makes \<open>analyze_services\<close> return the empty list, not one result per
  resource: the early return comes before the skipped resources are appended.
\<close>

theorem no_candidate_returns_nothing:
  "fst (analyze_services env [storage_account] use_cache refresh st) = []"
proof -
  have "\<not> is_potential_temenos_component storage_account" by code_simp
  then show ?thesis by (simp add: analyze_services_unfold)
qed

subsection \<open>The analyze operation\<close>

text \<open>
  C9. The response of the analyze operation does not depend on the selected namespaces:
  for every cluster, knowledge service and request, any two selections give the same
  response (data, count and processed), or the same error.
\<close>

theorem selection_independent:
  "fst (analyze_services_impl w env (request\<lparr>selected_namespaces := a\<rparr>)) =
   fst (analyze_services_impl w env (request\<lparr>selected_namespaces := b\<rparr>))"
  by (simp add: analyze_services_impl_def Let_def split: option.splits prod.splits)


lemma not_potential_infrastructure:
  "is_infrastructure s \<Longrightarrow> \<not> has_component_tag s \<Longrightarrow> \<not> is_potential_temenos_component s"
  by (simp add: is_infrastructure_def is_potential_temenos_component_def Let_def)

lemma infrastructure_is_noise:
  assumes "is_infrastructure (service x)"
  shows "is_noise x" and "key_of x \<noteq> None \<Longrightarrow> is_pod (service x)"
proof -
  from assms have g: "contains_any (lower (type (service x))) grouping_infra_types"
    unfolding is_infrastructure_def
    by (rule contains_any_coarser) (rule infrastructure_in_grouping_list)
  then show "is_noise x"
    unfolding is_noise_def
    by (rule contains_any_coarser) (rule grouping_in_unidentified_list)
  show "key_of x \<noteq> None \<Longrightarrow> is_pod (service x)"
    using g by (auto simp: key_of_def grouping_key_def is_pod_def Let_def
                     split: option.splits if_splits)
qed

lemma result_to_dict_info:
  "componentInfo_d (result_to_dict h x) = map_option (info_to_dict h) (component_info x)"
  "service_d (result_to_dict h x) = service x"
  by (simp_all add: result_to_dict_def)

lemma analyze_services_impl_unfold:
  "analyze_services_impl w env request =
     (if services request = [] then (Inl (HTTPException 500), None)
      else case subscription_of (services request) of
        None \<Rightarrow> (Inl (HTTPException 500), None)
      | Some sub \<Rightarrow>
          (let svcs = services request @ discovered_pods w sub (services request);
               fr = (case force_refresh request of Some b \<Rightarrow> b | None \<Rightarrow> False);
               run = analyze_services env svcs True fr (new_service (\<lambda>a. []) 0);
               ded = deduplicate_components (fst run) (heap (snd run))
           in (Inr \<lparr>data = map (result_to_dict (snd ded)) (fst ded),
                    count = length (fst ded),
                    processed = length svcs\<rparr>,
               selection_log (selected_namespaces request)
                 (discovered_pods w sub (services request)))))"
  by (simp add: analyze_services_impl_def Let_def split: prod.splits option.splits)

lemma analyze_services_impl_data:
  assumes "fst (analyze_services_impl w env request) = Inr resp" "r \<in> set (data resp)"
  shows "\<exists>svcs fr st h x.
           x \<in> set (fst (deduplicate_components (fst (analyze_services env svcs True fr st)) h))
           \<and> r = result_to_dict
                   (snd (deduplicate_components (fst (analyze_services env svcs True fr st)) h)) x"
proof -
  from assms(1) obtain sub where "services request \<noteq> []"
    and sub: "subscription_of (services request) = Some sub"
    by (auto simp: analyze_services_impl_unfold split: if_splits option.splits)
  define svcs where "svcs = services request @ discovered_pods w sub (services request)"
  define fr where "fr = (case force_refresh request of Some b \<Rightarrow> b | None \<Rightarrow> False)"
  define st where "st = new_service (\<lambda>a. []) 0"
  define h where "h = heap (snd (analyze_services env svcs True fr st))"
  let ?ded = "deduplicate_components (fst (analyze_services env svcs True fr st)) h"
  from assms(1) sub \<open>services request \<noteq> []\<close>
  have "data resp = map (result_to_dict (snd ?ded)) (fst ?ded)"
    by (auto simp: analyze_services_impl_unfold Let_def svcs_def fr_def st_def h_def)
  with assms(2) obtain x where "x \<in> set (fst ?ded)" "r = result_to_dict (snd ?ded) x"
    by auto
  then show ?thesis by blast
qed

text \<open>
  C1 does not hold of the code. The storage account \<open>transactdata\<close> with the tag
  \<open>component = transact\<close> has a type of the deny-list and is a candidate all the same:
  \<open>_is_potential_temenos_component\<close> returns true on a component tag before it looks at the
  deny-list, although the comments at the deny-list say that storage accounts, key vaults
  and network resources are never components.
\<close>

theorem tagged_storage_is_candidate:
  "is_infrastructure tagged_storage \<and> is_potential_temenos_component tagged_storage"
  by code_simp

text \<open>
  The deny-list as written also lets a network resource through: it spells the type of a
  private endpoint \<open>privatendpoints\<close>, so the private endpoint \<open>transact-pe\<close>, without
  tags, matches no entry and is a candidate by its name.
\<close>

lemma private_endpoint_is_candidate:
  "\<not> is_infrastructure private_endpoint \<and> is_potential_temenos_component private_endpoint"
  by code_simp

text \<open>
  What the deny-list does guarantee. A resource whose type matches it and that carries no
  \<open>temenosComponent\<close> or \<open>component\<close> tag is never a candidate, whatever its name. And
  whatever the cluster, the knowledge service and the request, a resource of the response
  whose type matches the deny-list is of a pod type and carries a component tag: the
  aggregator keeps every other resource of such a type out of the response, with or
  without knowledge.
\<close>

lemma infrastructure_not_reported:
  "(is_infrastructure s \<and> \<not> has_component_tag s \<longrightarrow> \<not> is_potential_temenos_component s) \<and>
   (fst (analyze_services_impl w env request) = Inr resp \<and> r \<in> set (data resp) \<and>
    is_infrastructure (service_d r)
      \<longrightarrow> is_pod (service_d r) \<and> has_component_tag (service_d r))"
proof (rule conjI; rule impI)
  assume "is_infrastructure s \<and> \<not> has_component_tag s"
  then show "\<not> is_potential_temenos_component s"
    by (simp add: not_potential_infrastructure)
next
  assume a: "fst (analyze_services_impl w env request) = Inr resp \<and> r \<in> set (data resp) \<and>
    is_infrastructure (service_d r)"
  then have "fst (analyze_services_impl w env request) = Inr resp" "r \<in> set (data resp)"
    by simp_all
  from analyze_services_impl_data [OF this] obtain svcs fr st h x where
    x: "x \<in> set (fst (deduplicate_components (fst (analyze_services env svcs True fr st)) h))"
    and r: "r = result_to_dict (snd (deduplicate_components (fst (analyze_services env svcs True fr st)) h)) x"
    by blast
  from a r have infra: "is_infrastructure (service x)" by (simp add: result_to_dict_info)
  from deduplicate_components_subset [OF x]
  have mem: "x \<in> set (fst (analyze_services env svcs True fr st))"
    and keep: "key_of x = None \<longrightarrow> \<not> is_noise x" by auto
  from keep infrastructure_is_noise(1) [OF infra] have key: "key_of x \<noteq> None" by blast
  then have pod: "is_pod (service x)" by (rule infrastructure_is_noise(2) [OF infra])
  from key have "component_info x \<noteq> None" by (auto dest: key_of_has_info)
  from analyze_services_classified [OF mem this]
  have "is_potential_temenos_component (service x)" .
  with infra have "has_component_tag (service x)"
    using not_potential_infrastructure by blast
  with pod r show "is_pod (service_d r) \<and> has_component_tag (service_d r)"
    by (simp add: result_to_dict_info)
qed

lemma infrastructure_not_reported_example:
  "\<not> is_potential_temenos_component storage_account \<and>
   is_pod tagged_hybrid \<and> has_component_tag tagged_hybrid"
proof -
  let ?request = "\<lparr>services = [tagged_hybrid], selected_namespaces = None, force_refresh = None\<rparr>"
  let ?run = "fst (analyze_services_impl no_cluster no_rag ?request)"
  let ?resp = "case ?run of Inr resp \<Rightarrow> resp | Inl e \<Rightarrow> \<lparr>data = [], count = 0, processed = 0\<rparr>"
  let ?r = "hd (data ?resp)"
  have h1: "is_infrastructure storage_account \<and> \<not> has_component_tag storage_account"
    by code_simp
  have h2: "?run = Inr ?resp" by code_simp
  have h3: "?r \<in> set (data ?resp)" by code_simp
  have h4: "service_d ?r = tagged_hybrid" by code_simp
  have h5: "is_infrastructure tagged_hybrid" by code_simp
  from infrastructure_not_reported [of storage_account no_cluster no_rag ?request ?resp ?r]
       h1 h2 h3 h4 h5
  show ?thesis by simp
qed

subsection \<open>Three pods of one namespace\<close>

lemma response_text_Some: "r \<noteq> Malformed \<Longrightarrow> \<exists>t. response_text r = Some t"
  by (cases r) auto

lemma fetch_component_wellformed:
  assumes "has_rag env \<longrightarrow> (\<forall>n k c g. query_rag env n k c g \<noteq> Malformed)"
  shows "\<exists>info st'. fetch_component env svc uc cname category st = (Some info, st') \<and>
           component_name info = cname \<and>
           component_cache st' =
             (if uc then (component_cache st)(lower cname \<mapsto> info) else component_cache st) \<and>
           heap st' = (heap st)(next_ref st := [])"
proof (cases "has_rag env")
  case False
  then show ?thesis
    by (simp add: fetch_component_def Let_def new_list_def cache_put_def)
next
  case True
  with assms obtain ta tf where
    "response_text (query_rag env (rag_calls st) Architectural cname category) = Some ta"
    "response_text (query_rag env (Suc (rag_calls st)) Functional cname category) = Some tf"
    using response_text_Some by metis
  with True show ?thesis
    by (simp add: fetch_component_def Let_def new_list_def cache_put_def)
qed

lemma identify_component_named:
  assumes pot: "is_potential_temenos_component svc"
    and ex: "extract_component_name svc = Some e" "normalizedName e = N"
    and wf: "has_rag env \<longrightarrow> (\<forall>n k c g. query_rag env n k c g \<noteq> Malformed)"
    and inv: "\<forall>k c. component_cache st k = Some c \<longrightarrow> component_name c = N"
    and empty: "\<forall>a. heap st a = []"
  shows "\<exists>info st'. identify_component env svc True fr st = (Some info, st') \<and>
           component_name info = N \<and>
           (\<forall>k c. component_cache st' k = Some c \<longrightarrow> component_name c = N) \<and>
           (\<forall>a. heap st' a = [])"
proof -
  have fetch: "\<exists>info st'. fetch_component env svc True N (componentCategory e) st0 = (Some info, st') \<and>
           component_name info = N \<and>
           (\<forall>k c. component_cache st' k = Some c \<longrightarrow> component_name c = N) \<and>
           (\<forall>a. heap st' a = [])"
    if "\<forall>k c. component_cache st0 k = Some c \<longrightarrow> component_name c = N" "\<forall>a. heap st0 a = []"
    for st0
  proof -
    from fetch_component_wellformed [OF wf, of svc True N "componentCategory e" st0]
    obtain info st' where f: "fetch_component env svc True N (componentCategory e) st0 = (Some info, st')"
      "component_name info = N"
      "component_cache st' = (component_cache st0)(lower N \<mapsto> info)"
      "heap st' = (heap st0)(next_ref st0 := [])" by auto
    from f(2,3) that(1) have "\<forall>k c. component_cache st' k = Some c \<longrightarrow> component_name c = N"
      by auto
    moreover from f(4) that(2) have "\<forall>a. heap st' a = []" by auto
    ultimately show ?thesis using f(1,2) by blast
  qed
  show ?thesis
  proof (cases "if \<not> fr then component_cache st (lower N) else None")
    case None
    with pot ex fetch [OF inv empty] show ?thesis
      by (auto simp: identify_component_def Let_def)
  next
    case (Some c)
    then have c: "component_cache st (lower N) = Some c" "\<not> fr" by (auto split: if_splits)
    with inv have cn: "component_name c = N" by blast
    show ?thesis
    proof (cases "is_minimal N c \<and> has_rag env")
      case True
      let ?st0 = "st\<lparr>component_cache := (component_cache st)(lower N := None)\<rparr>"
      have "\<forall>k c. component_cache ?st0 k = Some c \<longrightarrow> component_name c = N"
        using inv by auto
      moreover have "\<forall>a. heap ?st0 a = []" using empty by simp
      ultimately have "\<exists>info st'. fetch_component env svc True N (componentCategory e) ?st0 = (Some info, st') \<and>
           component_name info = N \<and>
           (\<forall>k c. component_cache st' k = Some c \<longrightarrow> component_name c = N) \<and>
           (\<forall>a. heap st' a = [])" by (rule fetch)
      with pot ex c True show ?thesis
        by (auto simp: identify_component_def Let_def)
    next
      case False
      with pot ex c cn inv empty show ?thesis
        by (auto simp: identify_component_def Let_def)
    qed
  qed
qed

lemma dedup_three:
  assumes "component_info ra = Some ia" "component_info rb = Some ib" "component_info rc = Some ic"
    and "grouping_key (service ra) ia = Some K" "grouping_key (service rb) ib = Some K"
        "grouping_key (service rc) ic = Some K"
    and "h (related_services ia) = []"
    and "name (service rb) \<noteq> name (service rc)"
  shows "deduplicate_components [ra, rb, rc] h =
           ([ra], h(related_services ia := [name (service rb), name (service rc)]))"
  using assms by (simp add: deduplicate_components_def dedup_step_def Let_def)

lemma three_of_a_kind:
  assumes wf: "has_rag env \<longrightarrow> (\<forall>n k c g. query_rag env n k c g \<noteq> Malformed)"
    and pot: "is_potential_temenos_component pa" "is_potential_temenos_component pb"
             "is_potential_temenos_component pc"
    and ex: "map_option normalizedName (extract_component_name pa) = Some N"
            "map_option normalizedName (extract_component_name pb) = Some N"
            "map_option normalizedName (extract_component_name pc) = Some N"
    and key: "\<forall>info. grouping_key pa info = Some K" "\<forall>info. grouping_key pb info = Some K"
             "\<forall>info. grouping_key pc info = Some K"
    and sub: "subscription_of [pa, pb, pc] = Some sub"
    and none: "discovered_pods w sub [pa, pb, pc] = []"
    and names: "name pb \<noteq> name pc"
  shows "\<exists>r c. fst (analyze_services_impl w env
                       \<lparr>services = [pa, pb, pc], selected_namespaces = sel, force_refresh = fr\<rparr>)
                  = Inr \<lparr>data = [r], count = 1, processed = 3\<rparr> \<and>
               service_d r = pa \<and> componentInfo_d r = Some c \<and>
               componentName_d c = N \<and> relatedServices_d c = [name pb, name pc]"
proof -
  define refresh where "refresh = (case fr of Some b \<Rightarrow> b | None \<Rightarrow> False)"
  define st0 where "st0 = new_service (\<lambda>a. []) 0"
  from ex obtain ea eb ec where e:
    "extract_component_name pa = Some ea" "normalizedName ea = N"
    "extract_component_name pb = Some eb" "normalizedName eb = N"
    "extract_component_name pc = Some ec" "normalizedName ec = N" by auto
  have inv0: "\<forall>k c. component_cache st0 k = Some c \<longrightarrow> component_name c = N"
    and emp0: "\<forall>a. heap st0 a = []" by (simp_all add: st0_def new_service_def)
  from identify_component_named [OF pot(1) e(1,2) wf inv0 emp0, of refresh]
  obtain ia st1 where a: "identify_component env pa True refresh st0 = (Some ia, st1)"
    "component_name ia = N" "\<forall>k c. component_cache st1 k = Some c \<longrightarrow> component_name c = N"
    "\<forall>a. heap st1 a = []" by blast
  from identify_component_named [OF pot(2) e(3,4) wf a(3,4), of refresh]
  obtain ib st2 where b: "identify_component env pb True refresh st1 = (Some ib, st2)"
    "component_name ib = N" "\<forall>k c. component_cache st2 k = Some c \<longrightarrow> component_name c = N"
    "\<forall>a. heap st2 a = []" by blast
  from identify_component_named [OF pot(3) e(5,6) wf b(3,4), of refresh]
  obtain ic st3 where c: "identify_component env pc True refresh st2 = (Some ic, st3)"
    "component_name ic = N" "\<forall>a. heap st3 a = []" by blast
  let ?ra = "\<lparr>service = pa, component_info = Some ia, error = None\<rparr>"
  let ?rb = "\<lparr>service = pb, component_info = Some ib, error = None\<rparr>"
  let ?rc = "\<lparr>service = pc, component_info = Some ic, error = None\<rparr>"
  have run: "analyze_services env [pa, pb, pc] True refresh st0 = ([?ra, ?rb, ?rc], st3)"
    using pot a(1) b(1) c(1) by (simp add: analyze_services_unfold Let_def)
  have ded: "deduplicate_components [?ra, ?rb, ?rc] (heap st3) =
           ([?ra], (heap st3)(related_services ia := [name pb, name pc]))"
    using dedup_three [of ?ra ia ?rb ib ?rc ic K "heap st3"] key c(3) names by simp
  have "fst (analyze_services_impl w env
               \<lparr>services = [pa, pb, pc], selected_namespaces = sel, force_refresh = fr\<rparr>)
        = Inr \<lparr>data = [result_to_dict ((heap st3)(related_services ia := [name pb, name pc])) ?ra],
               count = 1, processed = 3\<rparr>"
    using sub none run ded
    by (simp add: analyze_services_impl_def Let_def refresh_def st0_def)
  moreover have "service_d (result_to_dict ((heap st3)(related_services ia := [name pb, name pc])) ?ra) = pa"
    by (simp add: result_to_dict_def)
  moreover have "componentInfo_d (result_to_dict ((heap st3)(related_services ia := [name pb, name pc])) ?ra)
      = Some (info_to_dict ((heap st3)(related_services ia := [name pb, name pc])) ia)"
    by (simp add: result_to_dict_def)
  moreover have "componentName_d (info_to_dict ((heap st3)(related_services ia := [name pb, name pc])) ia) = N"
    using a(2) by (simp add: info_to_dict_def)
  moreover have "relatedServices_d (info_to_dict ((heap st3)(related_services ia := [name pb, name pc])) ia)
      = [name pb, name pc]"
    by (simp add: info_to_dict_def)
  ultimately show ?thesis by blast
qed


text \<open>Facts about the resource of a pod, from its fields alone.\<close>

lemma split_on_nonempty: "split_on sep s \<noteq> []"
  by (induction s) (auto split: list.splits)

lemma pod_type_facts:
  "lower ''Microsoft.ContainerService/managedClusters/pods'' = ''microsoft.containerservice/managedclusters/pods''"
  "lower ''microsoft.containerservice/managedclusters/pods'' = ''microsoft.containerservice/managedclusters/pods''"
  "contains ''microsoft.containerservice/managedclusters/pods'' ''managedclusters/pods''"
  "\<not> contains_any ''microsoft.containerservice/managedclusters/pods'' infrastructure_types"
  "\<not> contains_any ''microsoft.containerservice/managedclusters/pods'' grouping_infra_types"
  "''microsoft.containerservice/managedclusters/pods'' \<noteq> ''microsoft.containerservice/managedclusters''"
  "dict_get temenos_namespaces ''adapterservice'' = Some ''Adapter Microservice''"
  "lower ''adapterservice'' = ''adapterservice''"
  "contains ''Adapter Microservice'' ''Microservice''"
  by code_simp+

lemma pod_fields:
  "id' (to_azure_resource p) = ''/subscriptions/'' @ cluster_resource_group p @
             ''/resourceGroups/'' @ cluster_resource_group p @
             ''/providers/Microsoft.ContainerService/managedClusters/'' @ cluster_name p @
             ''/namespaces/'' @ namespace p @ ''/pods/'' @ pod_name p"
  "name (to_azure_resource p) = namespace p @ ''/'' @ pod_name p"
  "type (to_azure_resource p) = ''Microsoft.ContainerService/managedClusters/pods''"
  "tags (to_azure_resource p) = [(''namespace'', namespace p), (''pod_name'', pod_name p),
              (''cluster'', cluster_name p)] @ labels p"
  "properties (to_azure_resource p) = [(''namespace'', namespace p), (''cluster'', cluster_name p),
                    (''status'', status p), (''pod_name'', pod_name p),
                    (''namespace_name'', namespace p)]"
  "id' (bare_named p) = id' (to_azure_resource p)"
  "name (bare_named p) = pod_name p"
  "type (bare_named p) = type (to_azure_resource p)"
  "tags (bare_named p) = tags (to_azure_resource p)"
  "properties (bare_named p) = properties (to_azure_resource p)"
  by (simp_all add: to_azure_resource_def bare_named_def)

lemma pod_resource_subscription:
  assumes "id' r = ''/subscriptions/'' @ rest"
  shows "\<exists>sub. subscription_of (r # rs) = Some sub"
proof -
  have parts: "split_on CHR ''/'' (id' r) = [] # ''subscriptions'' # split_on CHR ''/'' rest"
    by (simp add: assms)
  obtain q qs where q: "split_on CHR ''/'' rest = q # qs"
    using split_on_nonempty [of "CHR ''/''" rest] by (cases "split_on CHR ''/'' rest") auto
  have "id' r \<noteq> []" by (simp add: assms)
  then show ?thesis
    unfolding subscription_of_def
    by (simp add: parts q Let_def part_after_def index_of_def del: split_on.simps)
qed

lemma pod_resource_potential:
  assumes "type r = ''Microsoft.ContainerService/managedClusters/pods''"
  shows "is_potential_temenos_component r"
  by (simp add: is_potential_temenos_component_def Let_def assms pod_type_facts)

lemma pod_resource_not_cluster:
  assumes "type r = ''Microsoft.ContainerService/managedClusters/pods''"
  shows "\<not> is_aks_cluster r"
  by (simp add: is_aks_cluster_def assms pod_type_facts del: list.inject)

lemma pod_resource_grouping_key:
  assumes "type r = ''Microsoft.ContainerService/managedClusters/pods''"
    and "dict_get (properties r) ''namespace'' = Some ''adapterservice''"
  shows "grouping_key r info = Some ''adapterservice''"
  using assms(2)
  by (simp add: grouping_key_def Let_def assms(1) pod_type_facts get_or_empty_def)

lemma pod_resource_extract:
  assumes "type r = ''Microsoft.ContainerService/managedClusters/pods''"
    and "dict_get (properties r) ''namespace'' = Some ''adapterservice''"
    and "\<not> truthy (dict_get (tags r) ''temenosComponent'')"
    and "\<not> truthy (dict_get (tags r) ''component'')"
  shows "map_option normalizedName (extract_component_name r) = Some ''Adapter Microservice''"
proof -
  have ns: "pod_namespace r = ''adapterservice''"
    by (simp add: pod_namespace_def py_or_def assms(2) Let_def)
  have pod: "is_pod r" by (simp add: is_pod_def assms(1) pod_type_facts)
  show ?thesis
    by (simp add: extract_component_name_def assms(3,4) ns pod pod_type_facts py_or_def Let_def)
qed


lemma no_cluster_no_pods:
  "\<not> is_aks_cluster pa \<Longrightarrow> \<not> is_aks_cluster pb \<Longrightarrow> \<not> is_aks_cluster pc \<Longrightarrow>
   discovered_pods w sub [pa, pb, pc] = []"
  by (simp add: discovered_pods_def discover_pods_from_resources_def Let_def)

lemma adapter_pod_resource:
  assumes "namespace p = ''adapterservice''" "no_component_label p"
    and "r = to_azure_resource p \<or> r = bare_named p"
  shows "is_potential_temenos_component r"
    "map_option normalizedName (extract_component_name r) = Some ''Adapter Microservice''"
    "\<forall>info. grouping_key r info = Some ''adapterservice''"
    "\<not> is_aks_cluster r"
    "\<exists>sub. subscription_of (r # rs) = Some sub"
proof -
  from assms(3) have ty: "type r = ''Microsoft.ContainerService/managedClusters/pods''"
    by (auto simp: pod_fields)
  from assms(1,3) have ns: "dict_get (properties r) ''namespace'' = Some ''adapterservice''"
    by (auto simp: pod_fields dict_get_def)
  from assms(2,3) have tg: "\<not> truthy (dict_get (tags r) ''temenosComponent'')"
    "\<not> truthy (dict_get (tags r) ''component'')"
    by (auto simp: pod_fields dict_get_def no_component_label_def)
  from assms(3) have i: "id' r = ''/subscriptions/'' @ cluster_resource_group p @
             ''/resourceGroups/'' @ cluster_resource_group p @
             ''/providers/Microsoft.ContainerService/managedClusters/'' @ cluster_name p @
             ''/namespaces/'' @ namespace p @ ''/pods/'' @ pod_name p"
    by (auto simp: pod_fields)
  show "is_potential_temenos_component r" by (rule pod_resource_potential [OF ty])
  show "map_option normalizedName (extract_component_name r) = Some ''Adapter Microservice''"
    by (rule pod_resource_extract [OF ty ns tg])
  show "\<forall>info. grouping_key r info = Some ''adapterservice''"
    using pod_resource_grouping_key [OF ty ns] by blast
  show "\<not> is_aks_cluster r" by (rule pod_resource_not_cluster [OF ty])
  show "\<exists>sub. subscription_of (r # rs) = Some sub" by (rule pod_resource_subscription [OF i])
qed

text \<open>
  C2, as the claim states it, fails for pods that come from the discovery: the pod adapter
  gives a pod the display name \<open>namespace/pod\<close>, and the aggregator merges display names,
  so the related services of the three pods \<open>pod-a\<close>, \<open>pod-b\<close>, \<open>pod-c\<close> of namespace
  \<open>adapterservice\<close> are \<open>adapterservice/pod-b\<close> and \<open>adapterservice/pod-c\<close>.
\<close>

theorem discovered_pods_keep_namespace_in_name:
  "map (\<lambda>r. map_option relatedServices_d (componentInfo_d r))
       (case fst (analyze_services_impl no_cluster no_rag
                    \<lparr>services = [to_azure_resource (aks_pod ''adapterservice'' ''pod-a''),
                                 to_azure_resource (aks_pod ''adapterservice'' ''pod-b''),
                                 to_azure_resource (aks_pod ''adapterservice'' ''pod-c'')],
                     selected_namespaces = None, force_refresh = None\<rparr>) of
          Inr resp \<Rightarrow> data resp
        | Inl e \<Rightarrow> [])
     = [Some [''adapterservice/pod-b'', ''adapterservice/pod-c'']]
   \<and> [''adapterservice/pod-b'', ''adapterservice/pod-c''] \<noteq> [''pod-b'', ''pod-c'']
   \<and> pod_name (aks_pod ''adapterservice'' ''pod-b'') = ''pod-b''
   \<and> namespace (aks_pod ''adapterservice'' ''pod-b'') = ''adapterservice''"
  by code_simp

text \<open>
  A component label takes precedence over the namespace: the pod \<open>pod-a\<close> of namespace
  \<open>adapterservice\<close> with the label \<open>component = adapter-api\<close> is named after the label.
\<close>

lemma component_label_names_pod:
  "map (\<lambda>r. map_option componentName_d (componentInfo_d r))
       (case fst (analyze_services_impl no_cluster no_rag
                    \<lparr>services = [to_azure_resource (labelled_pod ''adapterservice'' ''pod-a'' [(''component'', ''adapter-api'')])],
                     selected_namespaces = None, force_refresh = None\<rparr>) of
          Inr resp \<Rightarrow> data resp
        | Inl e \<Rightarrow> [])
     = [Some ''adapter-api'']"
  by code_simp

text \<open>
  C2, amended. Take three pods named \<open>pod-a\<close>, \<open>pod-b\<close>, \<open>pod-c\<close> of namespace
  \<open>adapterservice\<close>, of any cluster and resource group, with any status, containers and
  labels, provided that none of them has a label \<open>temenosComponent\<close> or \<open>component\<close> with a
  non-empty value. Whatever the cluster answers, whatever namespaces the request selects
  and whether or not it forces a refresh, provided that the knowledge service is not
  available or none of its responses carries an answer that is not a text (time-outs,
  failures, missing answers and any answer text are allowed): the analyze operation on
  exactly the three resources that the pod adapter builds from these pods returns exactly
  one result, the one of \<open>pod-a\<close>, with canonical name \<open>Adapter Microservice\<close> and related
  services \<open>adapterservice/pod-b\<close>, \<open>adapterservice/pod-c\<close>; and on the same three
  resources with the bare pod names as display names it returns exactly one result, the
  one of \<open>pod-a\<close>, with that canonical name and related services \<open>pod-b\<close>, \<open>pod-c\<close>.
\<close>

theorem three_adapter_pods:
  assumes "has_rag env \<longrightarrow> (\<forall>n k c g. query_rag env n k c g \<noteq> Malformed)"
    and "pod_name pa = ''pod-a''" "pod_name pb = ''pod-b''" "pod_name pc = ''pod-c''"
    and "namespace pa = ''adapterservice''" "namespace pb = ''adapterservice''"
        "namespace pc = ''adapterservice''"
    and "no_component_label pa" "no_component_label pb" "no_component_label pc"
  shows "(\<exists>r c. fst (analyze_services_impl w env
                      \<lparr>services = [to_azure_resource pa, to_azure_resource pb,
                                   to_azure_resource pc],
                       selected_namespaces = sel, force_refresh = fr\<rparr>)
                 = Inr \<lparr>data = [r], count = 1, processed = 3\<rparr> \<and>
               service_d r = to_azure_resource pa \<and>
               componentInfo_d r = Some c \<and>
               componentName_d c = ''Adapter Microservice'' \<and>
               relatedServices_d c = [''adapterservice/pod-b'', ''adapterservice/pod-c''])
       \<and> (\<exists>r c. fst (analyze_services_impl w env
                      \<lparr>services = [bare_named pa, bare_named pb, bare_named pc],
                       selected_namespaces = sel, force_refresh = fr\<rparr>)
                 = Inr \<lparr>data = [r], count = 1, processed = 3\<rparr> \<and>
               service_d r = bare_named pa \<and>
               componentInfo_d r = Some c \<and>
               componentName_d c = ''Adapter Microservice'' \<and>
               relatedServices_d c = [''pod-b'', ''pod-c''])"
proof (rule conjI)
  let ?pa = "to_azure_resource pa" and ?pb = "to_azure_resource pb"
    and ?pc = "to_azure_resource pc"
  note a = adapter_pod_resource [OF assms(5) assms(8), of ?pa]
    and b = adapter_pod_resource [OF assms(6) assms(9), of ?pb]
    and c = adapter_pod_resource [OF assms(7) assms(10), of ?pc]
  from a(5) [of "[?pb, ?pc]"] obtain sub where sub: "subscription_of [?pa, ?pb, ?pc] = Some sub"
    by auto
  have names: "name ?pb = ''adapterservice/pod-b''" "name ?pc = ''adapterservice/pod-c''"
    by (simp_all add: pod_fields assms)
  then have neq: "name ?pb \<noteq> name ?pc" by simp
  have none: "discovered_pods w sub [?pa, ?pb, ?pc] = []"
    by (rule no_cluster_no_pods) (simp_all add: a b c)
  from three_of_a_kind [OF assms(1) a(1) b(1) c(1) a(2) b(2) c(2) a(3) b(3) c(3) sub none neq,
      of sel fr]
  show "\<exists>r c. fst (analyze_services_impl w env
                      \<lparr>services = [?pa, ?pb, ?pc], selected_namespaces = sel, force_refresh = fr\<rparr>)
                 = Inr \<lparr>data = [r], count = 1, processed = 3\<rparr> \<and>
               service_d r = ?pa \<and>
               componentInfo_d r = Some c \<and>
               componentName_d c = ''Adapter Microservice'' \<and>
               relatedServices_d c = [''adapterservice/pod-b'', ''adapterservice/pod-c'']"
    unfolding names by blast
next
  let ?pa = "bare_named pa" and ?pb = "bare_named pb" and ?pc = "bare_named pc"
  note a = adapter_pod_resource [OF assms(5) assms(8), of ?pa]
    and b = adapter_pod_resource [OF assms(6) assms(9), of ?pb]
    and c = adapter_pod_resource [OF assms(7) assms(10), of ?pc]
  from a(5) [of "[?pb, ?pc]"] obtain sub where sub: "subscription_of [?pa, ?pb, ?pc] = Some sub"
    by auto
  have names: "name ?pb = ''pod-b''" "name ?pc = ''pod-c''"
    by (simp_all add: pod_fields assms)
  then have neq: "name ?pb \<noteq> name ?pc" by simp
  have none: "discovered_pods w sub [?pa, ?pb, ?pc] = []"
    by (rule no_cluster_no_pods) (simp_all add: a b c)
  from three_of_a_kind [OF assms(1) a(1) b(1) c(1) a(2) b(2) c(2) a(3) b(3) c(3) sub none neq,
      of sel fr]
  show "\<exists>r c. fst (analyze_services_impl w env
                      \<lparr>services = [?pa, ?pb, ?pc], selected_namespaces = sel, force_refresh = fr\<rparr>)
                 = Inr \<lparr>data = [r], count = 1, processed = 3\<rparr> \<and>
               service_d r = ?pa \<and>
               componentInfo_d r = Some c \<and>
               componentName_d c = ''Adapter Microservice'' \<and>
               relatedServices_d c = [''pod-b'', ''pod-c'']"
    unfolding names by blast
qed

theorem three_adapter_pods_witness:
  "\<exists>r c. fst (analyze_services_impl no_cluster timeout_rag
                 \<lparr>services = [to_azure_resource (labelled_pod ''adapterservice'' ''pod-a'' [(''app'', ''adapter-api'')]),
                              to_azure_resource (aks_pod ''adapterservice'' ''pod-b''),
                              to_azure_resource (aks_pod ''adapterservice'' ''pod-c'')],
                  selected_namespaces = None, force_refresh = None\<rparr>)
            = Inr \<lparr>data = [r], count = 1, processed = 3\<rparr> \<and>
          componentInfo_d r = Some c \<and>
          componentName_d c = ''Adapter Microservice'' \<and>
          relatedServices_d c = [''adapterservice/pod-b'', ''adapterservice/pod-c'']"
proof -
  have wf: "has_rag timeout_rag \<longrightarrow> (\<forall>n k c g. query_rag timeout_rag n k c g \<noteq> Malformed)"
    by (simp add: timeout_rag_def)
  have "pod_name (labelled_pod ''adapterservice'' ''pod-a'' [(''app'', ''adapter-api'')]) = ''pod-a''"
    "pod_name (aks_pod ''adapterservice'' ''pod-b'') = ''pod-b''"
    "pod_name (aks_pod ''adapterservice'' ''pod-c'') = ''pod-c''"
    "namespace (labelled_pod ''adapterservice'' ''pod-a'' [(''app'', ''adapter-api'')]) = ''adapterservice''"
    "namespace (aks_pod ''adapterservice'' ''pod-b'') = ''adapterservice''"
    "namespace (aks_pod ''adapterservice'' ''pod-c'') = ''adapterservice''"
    "no_component_label (labelled_pod ''adapterservice'' ''pod-a'' [(''app'', ''adapter-api'')])"
    "no_component_label (aks_pod ''adapterservice'' ''pod-b'')"
    "no_component_label (aks_pod ''adapterservice'' ''pod-c'')"
    by (simp_all add: labelled_pod_def aks_pod_def no_component_label_def dict_get_def)
  from three_adapter_pods [OF wf this, of no_cluster None None] show ?thesis by blast
qed

subsection \<open>One list behind several representatives\<close>

lemma is_minimal_looks_minimal:
  "is_minimal n c \<Longrightarrow> looks_minimal (architectural_overview c)"
proof -
  assume "is_minimal n c"
  then have len: "length (architectural_overview c) < 500"
    and "startswith (architectural_overview c) (minimal_prefix n)"
    by (simp_all add: is_minimal_def)
  then obtain q where
    "architectural_overview c = n @ '' is a Temenos microservice component deployed'' @ q"
    by (auto simp: startswith_iff minimal_prefix_def)
  then have "contains (architectural_overview c) '' is a Temenos microservice component deployed''"
    unfolding contains_iff by blast
  with len show ?thesis by (simp add: looks_minimal_def)
qed

lemma fallback_not_minimal: "\<not> looks_minimal (fallback_architectural n)"
  by (simp add: looks_minimal_def fallback_architectural_def)

lemma error_marker_not_minimal:
  "format_rag_response not_available_error = not_available_error"
  "\<not> looks_minimal not_available_error"
  "not_available_error \<notin> set [not_available, not_available_timeout]"
  by code_simp+

lemma format_markers:
  "format_rag_response not_available = not_available"
  "format_rag_response not_available_timeout = not_available_timeout"
  by (simp_all add: format_rag_response_def)

lemma fetch_component_not_minimal:
  assumes rag: "has_rag env"
    and calm: "\<forall>n c g t. query_rag env n Architectural c g = Answer t \<longrightarrow>
                 \<not> looks_minimal (format_rag_response t)"
    and run: "fetch_component env svc uc cname category st = (Some info, st')"
  shows "\<not> looks_minimal (architectural_overview info)"
proof -
  let ?a = "query_rag env (rag_calls st) Architectural cname category"
  from run rag obtain ta where ta: "response_text ?a = Some ta"
    and arch: "architectural_overview info =
      (if format_rag_response ta \<in> set [not_available, not_available_timeout]
       then fallback_architectural cname else format_rag_response ta)"
    by (auto simp: fetch_component_def Let_def new_list_def cache_put_def
             split: option.splits prod.splits if_splits)
  show ?thesis
  proof (cases ?a)
    case (Answer t)
    with ta have "ta = t" by simp
    with calm Answer have "\<not> looks_minimal (format_rag_response ta)" by blast
    with arch show ?thesis by (auto simp: fallback_not_minimal)
  next
    case NoAnswer
    with ta arch show ?thesis by (auto simp: format_markers fallback_not_minimal)
  next
    case Malformed
    with ta show ?thesis by simp
  next
    case Timeout
    with ta arch show ?thesis by (auto simp: format_markers fallback_not_minimal)
  next
    case Failure
    with ta have "ta = not_available_error" by simp
    with arch error_marker_not_minimal show ?thesis by auto
  qed
qed

lemma identify_component_sound:
  assumes calm: "has_rag env \<longrightarrow> (\<forall>n c g t. query_rag env n Architectural c g = Answer t \<longrightarrow>
                   \<not> looks_minimal (format_rag_response t))"
    and sound: "cache_sound env st"
    and run: "identify_component env svc True False st = (res, st')"
  shows "cache_sound env st' \<and>
         (\<forall>k c. component_cache st k = Some c \<longrightarrow> component_cache st' k = Some c) \<and>
         (\<forall>info. res = Some info \<longrightarrow>
            (\<exists>c. component_cache st' (lower (component_name info)) = Some c \<and>
                 related_services c = related_services info))"
proof (cases "is_potential_temenos_component svc \<and> extract_component_name svc \<noteq> None")
  case False
  with run have "res = None" "st' = st"
    by (auto simp: identify_component_def split: if_splits option.splits)
  with sound show ?thesis by simp
next
  case True
  then obtain e where pot: "is_potential_temenos_component svc"
    and e: "extract_component_name svc = Some e" by auto
  let ?N = "normalizedName e"
  show ?thesis
  proof (cases "component_cache st (lower ?N)")
    case None
    with run pot e have f: "fetch_component env svc True ?N (componentCategory e) st = (res, st')"
      by (simp add: identify_component_def Let_def)
    show ?thesis
    proof (cases res)
      case None
      with f have "component_cache st' = component_cache st"
        by (simp add: fetch_component_None)
      with sound None show ?thesis by (simp add: cache_sound_def)
    next
      case (Some info)
      with f have f': "fetch_component env svc True ?N (componentCategory e) st = (Some info, st')"
        by simp
      from fetch_component_Some [OF f']
      have c': "component_cache st' = (component_cache st)(lower ?N \<mapsto> info)"
        and nm: "component_name info = ?N" by simp_all
      have nmin: "has_rag env \<longrightarrow> \<not> looks_minimal (architectural_overview info)"
        using calm fetch_component_not_minimal [OF _ _ f'] by blast
      have "cache_sound env st'"
        using sound nm nmin unfolding cache_sound_def c' by auto
      moreover have "\<forall>k c. component_cache st k = Some c \<longrightarrow> component_cache st' k = Some c"
        using \<open>component_cache st (lower ?N) = None\<close> unfolding c' by auto
      moreover have "\<exists>c. component_cache st' (lower (component_name info)) = Some c \<and>
                 related_services c = related_services info"
        unfolding c' nm by simp
      ultimately show ?thesis using Some by simp
    qed
  next
    case (Some c)
    with sound have key: "lower (component_name c) = lower ?N"
      and nmin: "has_rag env \<longrightarrow> \<not> looks_minimal (architectural_overview c)"
      by (auto simp: cache_sound_def)
    have "\<not> (is_minimal ?N c \<and> has_rag env)"
      using nmin is_minimal_looks_minimal by blast
    from identify_component_hit [OF pot e Some this] run
    have res: "res = Some (c\<lparr>component_type := determine_component_type svc\<rparr>)" and st: "st' = st"
      by simp_all
    show ?thesis using sound Some key unfolding res st by simp
  qed
qed

lemma analyze_each_sound:
  assumes calm: "has_rag env \<longrightarrow> (\<forall>n c g t. query_rag env n Architectural c g = Answer t \<longrightarrow>
                   \<not> looks_minimal (format_rag_response t))"
  shows "cache_sound env st \<Longrightarrow> analyze_each env True False ss st = (rs, st') \<Longrightarrow>
         cache_sound env st' \<and>
         (\<forall>k c. component_cache st k = Some c \<longrightarrow> component_cache st' k = Some c) \<and>
         (\<forall>r \<in> set rs. \<forall>info. component_info r = Some info \<longrightarrow>
            (\<exists>c. component_cache st' (lower (component_name info)) = Some c \<and>
                 related_services c = related_services info))"
proof (induction ss arbitrary: st rs st')
  case Nil
  then show ?case by simp
next
  case (Cons s ss)
  obtain res st1 where id: "identify_component env s True False st = (res, st1)"
    by (cases "identify_component env s True False st")
  obtain rs' st2 where rest: "analyze_each env True False ss st1 = (rs', st2)"
    by (cases "analyze_each env True False ss st1")
  from Cons.prems(2) id rest have rs: "rs = \<lparr>service = s, component_info = res,
        error = (if res = None then Some could_not_identify else None)\<rparr> # rs'"
    and st': "st' = st2" by (simp_all add: Let_def)
  from identify_component_sound [OF calm Cons.prems(1) id]
  have s1: "cache_sound env st1"
    and p1: "\<forall>k c. component_cache st k = Some c \<longrightarrow> component_cache st1 k = Some c"
    and r1: "\<forall>info. res = Some info \<longrightarrow>
            (\<exists>c. component_cache st1 (lower (component_name info)) = Some c \<and>
                 related_services c = related_services info)" by auto
  from Cons.IH [OF s1 rest]
  have s2: "cache_sound env st2"
    and p2: "\<forall>k c. component_cache st1 k = Some c \<longrightarrow> component_cache st2 k = Some c"
    and r2: "\<forall>r \<in> set rs'. \<forall>info. component_info r = Some info \<longrightarrow>
            (\<exists>c. component_cache st2 (lower (component_name info)) = Some c \<and>
                 related_services c = related_services info)" by auto
  have head: "\<forall>info. res = Some info \<longrightarrow>
            (\<exists>c. component_cache st2 (lower (component_name info)) = Some c \<and>
                 related_services c = related_services info)"
    using r1 p2 by blast
  show ?case unfolding rs st' using s2 p1 p2 r2 head by auto
qed

lemma analyze_services_sound:
  assumes calm: "has_rag env \<longrightarrow> (\<forall>n c g t. query_rag env n Architectural c g = Answer t \<longrightarrow>
                   \<not> looks_minimal (format_rag_response t))"
    and run: "analyze_services env svcs True False (new_service h0 n0) = (rs, st')"
    and x: "x \<in> set rs" "component_info x = Some ix"
    and y: "y \<in> set rs" "component_info y = Some iy"
    and same: "lower (component_name ix) = lower (component_name iy)"
  shows "related_services ix = related_services iy"
proof -
  let ?pot = "filter is_potential_temenos_component svcs"
  obtain rs0 st0 where each: "analyze_each env True False ?pot (new_service h0 n0) = (rs0, st0)"
    by (cases "analyze_each env True False ?pot (new_service h0 n0)")
  have sound0: "cache_sound env (new_service h0 n0)"
    by (simp add: cache_sound_def new_service_def)
  from analyze_each_sound [OF calm sound0 each]
  have refs: "\<forall>r \<in> set rs0. \<forall>info. component_info r = Some info \<longrightarrow>
            (\<exists>c. component_cache st0 (lower (component_name info)) = Some c \<and>
                 related_services c = related_services info)" by simp
  from run each x have "x \<in> set rs0"
    by (auto simp: analyze_services_unfold Let_def split: if_splits)
  with refs x(2) obtain cx where
    cx: "component_cache st0 (lower (component_name ix)) = Some cx"
        "related_services cx = related_services ix" by blast
  from run each y have "y \<in> set rs0"
    by (auto simp: analyze_services_unfold Let_def split: if_splits)
  with refs y(2) obtain cy where
    cy: "component_cache st0 (lower (component_name iy)) = Some cy"
        "related_services cy = related_services iy" by blast
  from cx(1) cy(1) same have "cx = cy" by simp
  with cx(2) cy(2) show ?thesis by simp
qed

lemma analyze_services_impl_run:
  assumes "fst (analyze_services_impl w env request) = Inr resp"
  shows "\<exists>svcs. data resp =
           (let run = analyze_services env svcs True
                        (case force_refresh request of Some b \<Rightarrow> b | None \<Rightarrow> False)
                        (new_service (\<lambda>a. []) 0);
                ded = deduplicate_components (fst run) (heap (snd run))
            in map (result_to_dict (snd ded)) (fst ded))"
proof -
  from assms obtain sub where "services request \<noteq> []"
    and sub: "subscription_of (services request) = Some sub"
    by (auto simp: analyze_services_impl_unfold split: if_splits option.splits)
  with assms show ?thesis
    by (auto simp: analyze_services_impl_unfold Let_def)
qed

text \<open>
  C10, as the claim states it, fails: with caching on and no forced refresh, when the
  knowledge service gives a short answer that begins like the minimal description, the
  entry is evicted at every later call, each result gets a list of its own, and the two
  representatives of the namespaces \<open>adapterservice\<close> and \<open>adapter-service\<close> (same
  canonical name) end with different related services.
\<close>

theorem evicted_entry_not_shared:
  "map (\<lambda>r. map_option (\<lambda>c. (componentName_d c, relatedServices_d c)) (componentInfo_d r))
       (case fst (analyze_services_impl no_cluster terse_rag
                    \<lparr>services = [named_pod ''adapterservice'' ''pod-a'',
                                 named_pod ''adapter-service'' ''pod-b'',
                                 named_pod ''adapterservice'' ''pod-c''],
                     selected_namespaces = None, force_refresh = None\<rparr>) of
          Inr resp \<Rightarrow> data resp
        | Inl e \<Rightarrow> [])
     = [Some (''Adapter Microservice'', [''pod-c'']), Some (''Adapter Microservice'', [])]"
  by code_simp

text \<open>
  C10, amended. If the request does not force a refresh and the knowledge service is
  either not available or never answers the architectural query with a text that, once
  \<open>_format_rag_response\<close> has normalised its white space, looks like a minimal
  description (the normalised text is shorter than 500 characters and contains
  \<open> is a Temenos microservice component deployed\<close>), then any two results of the
  response that carry knowledge with the same canonical name (after lower-casing) carry
  the same related services, whatever their grouping keys: both hold the list of the one
  cached entry, so a name merged under either key shows under both. The condition is on
  the normalised text because that is what is cached and what the staleness check reads:
  an answer of 500 characters or more that shrinks below 500 when runs of blanks are
  squeezed is evicted like a short one.
\<close>

theorem shared_related_services:
  assumes "force_refresh request \<noteq> Some True"
    and "has_rag env \<longrightarrow> (\<forall>n c g t. query_rag env n Architectural c g = Answer t \<longrightarrow>
           \<not> looks_minimal (format_rag_response t))"
    and "fst (analyze_services_impl w env request) = Inr resp"
    and "r1 \<in> set (data resp)" and "r2 \<in> set (data resp)"
    and "componentInfo_d r1 = Some c1" and "componentInfo_d r2 = Some c2"
    and "lower (componentName_d c1) = lower (componentName_d c2)"
  shows "relatedServices_d c1 = relatedServices_d c2"
proof -
  from assms(1) have fr: "(case force_refresh request of Some b \<Rightarrow> b | None \<Rightarrow> False) = False"
    by (cases "force_refresh request") auto
  from analyze_services_impl_run [OF assms(3)] obtain svcs where
    d: "data resp =
           (let run = analyze_services env svcs True False (new_service (\<lambda>a. []) 0);
                ded = deduplicate_components (fst run) (heap (snd run))
            in map (result_to_dict (snd ded)) (fst ded))"
    unfolding fr by blast
  obtain rs st where run: "analyze_services env svcs True False (new_service (\<lambda>a. []) 0) = (rs, st)"
    by (cases "analyze_services env svcs True False (new_service (\<lambda>a. []) 0)")
  let ?ded = "deduplicate_components rs (heap st)"
  from d run have data: "data resp = map (result_to_dict (snd ?ded)) (fst ?ded)"
    by (simp add: Let_def)
  from assms(4) data obtain x where x: "x \<in> set (fst ?ded)" "r1 = result_to_dict (snd ?ded) x"
    by auto
  from assms(5) data obtain y where y: "y \<in> set (fst ?ded)" "r2 = result_to_dict (snd ?ded) y"
    by auto
  from x(2) assms(6) obtain ix where ix: "component_info x = Some ix" "c1 = info_to_dict (snd ?ded) ix"
    by (auto simp: result_to_dict_info)
  from y(2) assms(7) obtain iy where iy: "component_info y = Some iy" "c2 = info_to_dict (snd ?ded) iy"
    by (auto simp: result_to_dict_info)
  from deduplicate_components_subset [OF x(1)] have xin: "x \<in> set rs" by simp
  from deduplicate_components_subset [OF y(1)] have yin: "y \<in> set rs" by simp
  from assms(8) ix(2) iy(2) have "lower (component_name ix) = lower (component_name iy)"
    by (simp add: info_to_dict_def)
  from analyze_services_sound [OF assms(2) run xin ix(1) yin iy(1) this]
  have "related_services ix = related_services iy" .
  then show ?thesis by (simp add: ix(2) iy(2) info_to_dict_def)
qed

theorem shared_related_services_witness:
  "map (\<lambda>r. map_option relatedServices_d (componentInfo_d r))
       (case fst (analyze_services_impl no_cluster timeout_rag
                    \<lparr>services = [named_pod ''adapterservice'' ''pod-a'',
                                 named_pod ''adapter-service'' ''pod-b'',
                                 named_pod ''adapterservice'' ''pod-c''],
                     selected_namespaces = None, force_refresh = None\<rparr>) of
          Inr resp \<Rightarrow> data resp
        | Inl e \<Rightarrow> [])
     = [Some [''pod-c''], Some [''pod-c'']]"
proof -
  let ?request = "\<lparr>services = [named_pod ''adapterservice'' ''pod-a'',
                                 named_pod ''adapter-service'' ''pod-b'',
                                 named_pod ''adapterservice'' ''pod-c''],
                     selected_namespaces = None, force_refresh = None\<rparr>"
  define X where "X = fst (analyze_services_impl no_cluster timeout_rag ?request)"
  have "case X of
          Inr resp \<Rightarrow>
            (case data resp of
               [r1, r2] \<Rightarrow>
                 (case (componentInfo_d r1, componentInfo_d r2) of
                    (Some c1, Some c2) \<Rightarrow>
                      lower (componentName_d c1) = lower (componentName_d c2) \<and>
                      relatedServices_d c1 = [''pod-c'']
                  | _ \<Rightarrow> False)
             | _ \<Rightarrow> False)
        | Inl e \<Rightarrow> False"
    unfolding X_def by code_simp
  then obtain resp r1 r2 c1 c2 where
    run: "X = Inr resp" and d: "data resp = [r1, r2]"
    and c: "componentInfo_d r1 = Some c1" "componentInfo_d r2 = Some c2"
    and same: "lower (componentName_d c1) = lower (componentName_d c2)"
    and first: "relatedServices_d c1 = [''pod-c'']"
    by (auto split: sum.splits list.splits option.splits)
  have h1: "force_refresh ?request \<noteq> Some True" by simp
  have h2: "has_rag timeout_rag \<longrightarrow> (\<forall>n c g t. query_rag timeout_rag n Architectural c g = Answer t \<longrightarrow>
           \<not> looks_minimal (format_rag_response t))"
    by (simp add: timeout_rag_def)
  have h3: "fst (analyze_services_impl no_cluster timeout_rag ?request) = Inr resp"
    using run by (simp add: X_def)
  have h4: "r1 \<in> set (data resp)" and h5: "r2 \<in> set (data resp)" by (simp_all add: d)
  from shared_related_services [OF h1 h2 h3 h4 h5 c same] first
  have second: "relatedServices_d c2 = [''pod-c'']" by simp
  show ?thesis
    unfolding h3 by (simp add: d c first second)
qed

text \<open>
  The length that counts is the one after formatting: an architectural answer of more
  than 500 characters, most of them one run of blanks, is cached with the blanks squeezed,
  is taken for a minimal description and evicted at the next call for the same canonical
  name, so that two calls send four queries, as they do for a short answer.
\<close>

lemma padded_answer_evicted:
  "(case query_rag padded_rag 0 Architectural ''Adapter Microservice'' ''microservice'' of
      Answer t \<Rightarrow> 500 \<le> length t \<and> looks_minimal (format_rag_response t)
    | _ \<Rightarrow> False)
   \<and> rag_calls
        (snd (identify_component padded_rag (named_pod ''adapterservice'' ''pod-b'') True False
           (snd (identify_component padded_rag (named_pod ''adapterservice'' ''pod-a'') True False
              (new_service (\<lambda>a. []) 0))))) = 4"
  by code_simp

subsection \<open>Cluster credentials\<close>

text \<open>
  C7. On a machine where \<open>az aks get-credentials\<close> exits non-zero without writing the
  target file, while the default credential file exists and lists the cluster, the
  resolver returns no bundle: the check of the default file raises \<open>NameError\<close>, because
  \<open>shutil\<close> is not bound where \<open>_check_default_config\<close> runs.
\<close>

theorem default_kubeconfig_fallback_fails:
  "get_cluster_credentials stale_login ''rg1'' ''aks1'' = None
   \<and> az_get_credentials stale_login = Exited 1 []
   \<and> \<not> kubeconfig_exists stale_login
   \<and> default_kubeconfig_exists stale_login
   \<and> kubectl_get_contexts stale_login =
       Exited 0 ''CURRENT NAME CLUSTER AUTHINFO NAMESPACE * aks1 aks1 clusterUser_rg1_aks1''
   \<and> contains ''CURRENT NAME CLUSTER AUTHINFO NAMESPACE * aks1 aks1 clusterUser_rg1_aks1'' ''aks1''
   \<and> \<not> name_bound check_default_config_imports ''shutil''"
  by code_simp

lemma no_credentials_without_target_file:
  "az_get_credentials w = Exited rc out \<Longrightarrow> rc \<noteq> 0 \<Longrightarrow> \<not> kubeconfig_exists w \<Longrightarrow>
   get_cluster_credentials w rgroup cname = None"
  by (simp add: get_cluster_credentials_def run_process_def run_with_shutil_def name_bound_def
        get_credentials_imports_def check_default_config_imports_def check_default_config_def
        get_cluster_credentials_imports_def module_imports_def)

lemma credentials_when_target_file_written:
  "az_get_credentials w = Exited rc out \<Longrightarrow> kubeconfig_exists w \<Longrightarrow>
   kubectl_version w = Exited 0 out' \<Longrightarrow>
   get_cluster_credentials w rgroup cname =
     Some \<lparr>kubeconfig_path = target_kubeconfig w cname, cluster = cname, use_default = False\<rparr>"
  by (simp add: get_cluster_credentials_def run_process_def run_with_shutil_def name_bound_def
        get_credentials_imports_def check_kubectl_imports_def)

end
